theory Spec2Isabelle
  imports Complex_Main "HOL-Library.AList"
begin

section \<open>Pixelknight: the authoritative simulation and the client's input protocol\<close>

text \<open>
  The server (\<^verbatim>\<open>servercode.js\<close>) and the browser client are embedded as pure functions
  over explicit state. JavaScript numbers are modelled as exact reals (\<^typ>\<open>real\<close>);
  a value produced by \<^verbatim>\<open>Math.floor\<close> or \<^verbatim>\<open>Math.ceil\<close>, a loop counter and an array
  index are integers (\<^typ>\<open>int\<close>). Console output and network sends that no later
  computation reads are left out; every mutation of an object is a record update that
  is returned.
\<close>

subsection \<open>Constants\<close>

definition MAP_WIDTH :: int where
  "MAP_WIDTH = 1000"

definition MAP_HEIGHT :: int where
  "MAP_HEIGHT = 240"

definition TICK_RATE :: real where
  "TICK_RATE = 10"

definition INACTIVITY_TIMEOUT :: int where
  "INACTIVITY_TIMEOUT = 30000"

text \<open>The block \<^verbatim>\<open>gameState.physics\<close>.\<close>

definition gravity :: real where
  "gravity = 800"

definition jumpSpeed :: real where
  "jumpSpeed = - 350"

definition speed :: real where
  "speed = 150"

definition minJumpVelocity :: real where
  "minJumpVelocity = - 200"

subsection \<open>The world grid\<close>

text \<open>
  \<^verbatim>\<open>gameState.map\<close> is an array of rows, each an array of tile objects, indexed
  \<^verbatim>\<open>map[y][x]\<close>. A JavaScript array is a partial map from indices to values; reading
  an absent index yields \<^verbatim>\<open>undefined\<close>, which is \<open>None\<close> here.
\<close>

record tile =
  kind :: string
  solid :: bool
  color :: string

type_synonym tile_row = "int \<rightharpoonup> tile"
type_synonym grid = "int \<rightharpoonup> tile_row"

text \<open>The test \<^verbatim>\<open>map[r] && map[r][c] && map[r][c].solid\<close>.\<close>

definition is_solid :: "grid \<Rightarrow> int \<Rightarrow> int \<Rightarrow> bool" where
  "is_solid m r c =
     (case m r of
        None \<Rightarrow> False
      | Some row \<Rightarrow> (case row c of None \<Rightarrow> False | Some t \<Rightarrow> solid t))"

text \<open>
  The same test behind the guard
  \<^verbatim>\<open>c >= 0 && c < MAP_WIDTH && r >= 0 && r < MAP_HEIGHT\<close> that every probe of the
  collision solver carries.
\<close>

definition probe :: "grid \<Rightarrow> int \<Rightarrow> int \<Rightarrow> bool" where
  "probe m r c \<longleftrightarrow> 0 \<le> c \<and> c < MAP_WIDTH \<and> 0 \<le> r \<and> r < MAP_HEIGHT \<and> is_solid m r c"

definition empty_tile :: tile where
  "empty_tile = \<lparr>kind = ''empty'', solid = False, color = ''#000''\<rparr>"

definition ground_tile :: tile where
  "ground_tile = \<lparr>kind = ''ground'', solid = True, color = ''#8B4513''\<rparr>"

definition grass_tile :: tile where
  "grass_tile = \<lparr>kind = ''grass'', solid = True, color = ''#228B22''\<rparr>"

definition platform_tile :: tile where
  "platform_tile = \<lparr>kind = ''platform'', solid = True, color = ''#8B4513''\<rparr>"

text \<open>
  The loop \<^verbatim>\<open>for (x = c0; x < c1; x++) map[r][x] = t\<close> on an existing row \<open>r\<close>
  (\<^verbatim>\<open>createMap\<close> only writes to rows it has created).
\<close>

definition fill_cells :: "grid \<Rightarrow> int \<Rightarrow> int \<Rightarrow> int \<Rightarrow> tile \<Rightarrow> grid" where
  "fill_cells m r c0 c1 t =
     (case m r of
        None \<Rightarrow> m
      | Some row \<Rightarrow> m(r \<mapsto> (\<lambda>c. if c0 \<le> c \<and> c < c1 then Some t else row c)))"

definition createPlatform :: "grid \<Rightarrow> int \<Rightarrow> int \<Rightarrow> int \<Rightarrow> grid" where
  "createPlatform m x y w = fill_cells m y x (x + w) platform_tile"

definition blank_map :: grid where
  "blank_map =
     (\<lambda>y. if 0 \<le> y \<and> y < MAP_HEIGHT
          then Some (\<lambda>x. if 0 \<le> x \<and> x < MAP_WIDTH then Some empty_tile else None)
          else None)"

definition createMap :: grid where
  "createMap =
     (let m1 = fill_cells blank_map (MAP_HEIGHT - 1) 0 MAP_WIDTH ground_tile;
          m2 = fill_cells m1 (MAP_HEIGHT - 2) 0 MAP_WIDTH grass_tile;
          m3 = createPlatform m2 100 180 150;
          m4 = createPlatform m3 300 150 100;
          m5 = createPlatform m4 450 120 80;
          m6 = createPlatform m5 600 150 120;
          m7 = fill_cells m6 (MAP_HEIGHT - 1) 300 351 empty_tile;
          m8 = fill_cells m7 (MAP_HEIGHT - 2) 300 351 empty_tile;
          m9 = fill_cells m8 (MAP_HEIGHT - 1) 500 531 empty_tile
      in fill_cells m9 (MAP_HEIGHT - 2) 500 531 empty_tile)"

subsection \<open>Players\<close>

text \<open>
  The client's \<^verbatim>\<open>keys\<close> object, copied whole into every input message and stored
  by the server as \<^verbatim>\<open>player.keys\<close>.
\<close>

record key_state =
  key_left :: bool
  key_right :: bool
  key_jump :: bool
  key_jumpJustPressed :: bool
  key_attack :: bool
  key_attackJustPressed :: bool

text \<open>
  A player object of \<^verbatim>\<open>gameState.players\<close>. The field \<^verbatim>\<open>keys\<close> is absent until the
  first input message arrives.
\<close>

record player =
  id :: string
  pos_x :: real
  pos_y :: real
  vel_x :: real
  vel_y :: real
  width :: real
  height :: real
  onGround :: bool
  facingRight :: bool
  animationFrame :: int
  lastProcessedInput :: int
  keys :: "key_state option"

definition new_player :: "string \<Rightarrow> player" where
  "new_player playerId =
     \<lparr>id = playerId, pos_x = 50, pos_y = 100, vel_x = 0, vel_y = 0, width = 16,
      height = 24, onGround = False, facingRight = True, animationFrame = 0,
      lastProcessedInput = 0, keys = None\<rparr>"

definition processPlayerInput :: "player \<Rightarrow> player" where
  "processPlayerInput player =
     (let p0 = player\<lparr>vel_x := 0\<rparr>
      in case keys p0 of
           None \<Rightarrow> p0
         | Some k \<Rightarrow>
             (let p1 = (if key_left k then p0\<lparr>vel_x := - speed, facingRight := False\<rparr> else p0);
                  p2 = (if key_right k then p1\<lparr>vel_x := speed, facingRight := True\<rparr> else p1);
                  p3 = (if key_jump k \<and> onGround p2
                        then p2\<lparr>vel_y := jumpSpeed, onGround := False\<rparr> else p2)
              in if \<not> key_jump k \<and> vel_y p3 < minJumpVelocity
                 then p3\<lparr>vel_y := minJumpVelocity\<rparr> else p3))"

text \<open>
  \<^verbatim>\<open>playerHit(id, damage)\<close> resets the position and clears the velocity of
  \<^verbatim>\<open>gameState.players[id]\<close>. Both callers pass the \<^verbatim>\<open>id\<close> of a player they are
  iterating over, so the object found is that player, on which the model acts (the
  broadcast of the hit is not state).
\<close>

definition playerHit :: "player \<Rightarrow> player" where
  "playerHit player = player\<lparr>pos_x := 50, pos_y := 200, vel_x := 0, vel_y := 0\<rparr>"

subsection \<open>The collision solver\<close>

text \<open>
  Three expressions recur in every branch of the two solver functions and are named
  once here: the number of ray-march steps, the floored position of march step
  \<open>step\<close>, and the \<open>i\<close>-th of the sample points spread over the perpendicular extent.
\<close>

definition stepCount :: "real \<Rightarrow> int" where
  "stepCount movementDistance = max 5 (\<lceil>movementDistance / 4\<rceil> + 3)"

definition marchPos :: "real \<Rightarrow> real \<Rightarrow> int \<Rightarrow> int \<Rightarrow> int" where
  "marchPos start dest steps step =
     \<lfloor>start + (of_int step / of_int (steps - 1)) * (dest - start)\<rfloor>"

definition samplePoint :: "int \<Rightarrow> int \<Rightarrow> int \<Rightarrow> int \<Rightarrow> int" where
  "samplePoint lo hi checkPoints i =
     \<lfloor>of_int lo + (of_int i * of_int (hi - lo)) / (of_int (checkPoints - 1) :: real)\<rfloor>"

text \<open>
  \<^verbatim>\<open>checkHorizontalCollision(newX, y, character)\<close> returns whether a solid tile was
  met and, as the source writes \<^verbatim>\<open>character.pos_x\<close> before returning true, the
  character with its snapped position. The nested loops return at the first solid
  probe, which \<^const>\<open>find\<close> over the probes in loop order gives.
\<close>

definition checkHorizontalCollision :: "grid \<Rightarrow> real \<Rightarrow> real \<Rightarrow> player \<Rightarrow> bool \<times> player" where
  "checkHorizontalCollision m newX y character =
     (let top = \<lfloor>y\<rfloor>;
          bottom = \<lfloor>y + height character - 1\<rfloor>;
          checkPoints = max 5 (bottom - top + 1);
          movementDistance = \<bar>newX - pos_x character\<bar>;
          rows = map (samplePoint top bottom checkPoints) [0..checkPoints - 1];
          centerY = \<lfloor>of_int top + of_int (bottom - top) / (2 :: real)\<rfloor>
      in if vel_x character > 0 then
           (let steps = stepCount movementDistance;
                cols = map (\<lambda>step. \<lfloor>of_int (marchPos (pos_x character) newX steps step)
                                      + width character\<rfloor>) [0..steps - 1]
            in case find (\<lambda>(checkRight, checkY). probe m checkY checkRight)
                         (List.product cols rows) of
                 Some (checkRight, checkY) \<Rightarrow>
                   (True, character\<lparr>pos_x := of_int checkRight - width character\<rparr>)
               | None \<Rightarrow>
                   (let right = \<lfloor>newX + width character\<rfloor>
                    in if list_ex (\<lambda>checkY. probe m checkY right)
                            (centerY # filter (\<lambda>checkY. checkY \<noteq> centerY) rows)
                       then (True, character\<lparr>pos_x := of_int right - width character\<rparr>)
                       else (False, character)))
         else if vel_x character < 0 then
           (let steps = stepCount movementDistance;
                cols = map (marchPos (pos_x character) newX steps) [0..steps - 1]
            in case find (\<lambda>(checkX, checkY). probe m checkY checkX)
                         (List.product cols rows) of
                 Some (checkX, checkY) \<Rightarrow> (True, character\<lparr>pos_x := of_int checkX + 1\<rparr>)
               | None \<Rightarrow>
                   (let left = \<lfloor>newX\<rfloor>
                    in if list_ex (\<lambda>checkY. probe m checkY left)
                            (centerY # filter (\<lambda>checkY. checkY \<noteq> centerY) rows)
                       then (True, character\<lparr>pos_x := of_int left + 1\<rparr>)
                       else (False, character)))
         else (False, character))"

definition checkVerticalCollision :: "grid \<Rightarrow> real \<Rightarrow> real \<Rightarrow> player \<Rightarrow> bool \<times> player" where
  "checkVerticalCollision m x newY character =
     (let left = \<lfloor>x\<rfloor>;
          right = \<lfloor>x + width character - 1\<rfloor>;
          checkPoints = max 5 (right - left + 1);
          movingDown = vel_y character > 0;
          movingUp = vel_y character < 0;
          movementDistance = \<bar>newY - pos_y character\<bar>;
          cols = map (samplePoint left right checkPoints) [0..checkPoints - 1];
          centerX = \<lfloor>of_int left + of_int (right - left) / (2 :: real)\<rfloor>
      in if movingDown then
           (let steps = stepCount movementDistance;
                rows = map (\<lambda>step. \<lfloor>of_int (marchPos (pos_y character) newY steps step)
                                      + height character\<rfloor>) [0..steps - 1]
            in case find (\<lambda>(checkBottom, checkX). probe m checkBottom checkX)
                         (List.product rows cols) of
                 Some (checkBottom, checkX) \<Rightarrow>
                   (True, character\<lparr>pos_y := of_int checkBottom - height character\<rparr>)
               | None \<Rightarrow>
                   (let bottom = \<lfloor>newY + height character\<rfloor>
                    in if list_ex (\<lambda>checkX. probe m bottom checkX)
                            (centerX # filter (\<lambda>checkX. checkX \<noteq> centerX) cols)
                       then (True, character\<lparr>pos_y := of_int bottom - height character\<rparr>)
                       else (False, character)))
         else if movingUp then
           (let steps = stepCount movementDistance;
                rows = map (marchPos (pos_y character) newY steps) [0..steps - 1]
            in case find (\<lambda>(checkY, checkX). probe m checkY checkX)
                         (List.product rows cols) of
                 Some (checkY, checkX) \<Rightarrow> (True, character\<lparr>pos_y := of_int checkY + 1\<rparr>)
               | None \<Rightarrow>
                   (let top = \<lfloor>newY\<rfloor>
                    in if list_ex (\<lambda>checkX. probe m top checkX)
                            (centerX # filter (\<lambda>checkX. checkX \<noteq> centerX) cols)
                       then (True, character\<lparr>pos_y := of_int top + 1\<rparr>)
                       else (False, character)))
         else (False, character))"

definition movePlayerWithCollision :: "grid \<Rightarrow> player \<Rightarrow> real \<Rightarrow> player" where
  "movePlayerWithCollision m player dt =
     (let newX = pos_x player + vel_x player * dt;
          (hitX, p1) = checkHorizontalCollision m newX (pos_y player) player;
          p2 = (if \<not> hitX then p1\<lparr>pos_x := newX\<rparr> else p1\<lparr>vel_x := 0\<rparr>);
          newY = pos_y p2 + vel_y p2 * dt;
          (hitY, p3) = checkVerticalCollision m (pos_x p2) newY p2;
          p4 = (if \<not> hitY then p3\<lparr>pos_y := newY, onGround := False\<rparr>
                else (if vel_y p3 > 0 then p3\<lparr>onGround := True\<rparr> else p3)\<lparr>vel_y := 0\<rparr>)
      in if pos_y p4 > of_int MAP_HEIGHT then playerHit p4 else p4)"

text \<open>
  The body of the game loop for one player that has not timed out: input, gravity,
  movement. The loop calls it with \<open>dt = TICK_RATE / 1000\<close>.
\<close>

definition updatePlayer :: "real \<Rightarrow> grid \<Rightarrow> player \<Rightarrow> player" where
  "updatePlayer dt m player =
     (let p1 = processPlayerInput player;
          p2 = p1\<lparr>vel_y := vel_y p1 + gravity * dt\<rparr>
      in movePlayerWithCollision m p2 dt)"

subsection \<open>Enemies and collectibles\<close>

text \<open>
  An enemy object as \<^verbatim>\<open>addEnemy\<close> builds it. The field \<^verbatim>\<open>pixelMasks\<close> is constant
  data read only by the pixel test below and is not carried.
\<close>

record enemy =
  enemy_x :: real
  enemy_y :: real
  enemy_width :: real
  enemy_height :: real
  enemy_type :: string
  enemy_vel_x :: real
  enemy_vel_y :: real
  leftBound :: real
  rightBound :: real
  enemy_facingRight :: bool
  enemy_animationFrame :: int
  enemy_animationTimer :: real
  defeated :: bool
  respawnTimer :: real
  originalX :: real
  originalY :: real

definition addEnemy :: "real \<Rightarrow> real \<Rightarrow> string \<Rightarrow> real \<Rightarrow> real \<Rightarrow> enemy" where
  "addEnemy x y type lb rb =
     \<lparr>enemy_x = x, enemy_y = y, enemy_width = 16, enemy_height = 16, enemy_type = type,
      enemy_vel_x = 50, enemy_vel_y = 0, leftBound = lb, rightBound = rb,
      enemy_facingRight = True, enemy_animationFrame = 0, enemy_animationTimer = 0,
      defeated = False, respawnTimer = 0, originalX = x, originalY = y\<rparr>"

definition createEnemies :: "enemy list" where
  "createEnemies =
     [addEnemy 200 (238 - 16) ''slime'' 150 250,
      addEnemy 400 (238 - 16) ''robot'' 380 480,
      addEnemy 650 (148 - 16) ''bat'' 600 700]"

record collectible =
  coin_x :: real
  coin_y :: real
  coin_pos_x :: real
  coin_pos_y :: real
  coin_width :: real
  coin_height :: real
  coin_type :: string
  collected :: bool
  coin_animationFrame :: int
  coin_animationTimer :: real

definition addCollectible :: "real \<Rightarrow> real \<Rightarrow> string \<Rightarrow> collectible" where
  "addCollectible x y type =
     \<lparr>coin_x = x, coin_y = y, coin_pos_x = x, coin_pos_y = y, coin_width = 8,
      coin_height = 8, coin_type = type, collected = False, coin_animationFrame = 0,
      coin_animationTimer = 0\<rparr>"

definition createCollectibles :: "collectible list" where
  "createCollectibles =
     [addCollectible 150 160 ''coin'', addCollectible 170 160 ''coin'',
      addCollectible 190 160 ''coin'', addCollectible 320 130 ''coin'',
      addCollectible 340 130 ''coin'', addCollectible 360 130 ''coin'',
      addCollectible 470 100 ''coin'', addCollectible 480 100 ''coin'',
      addCollectible 490 100 ''coin'', addCollectible 650 130 ''coin'',
      addCollectible 670 130 ''coin'']"

text \<open>The body of the \<^verbatim>\<open>forEach\<close> of the server's \<^verbatim>\<open>updateEnemies(dt)\<close>.\<close>

definition updateEnemy :: "real \<Rightarrow> enemy \<Rightarrow> enemy" where
  "updateEnemy dt enemy =
     (if defeated enemy then
        (let e1 = enemy\<lparr>respawnTimer := respawnTimer enemy - dt\<rparr>
         in if respawnTimer e1 \<le> 0
            then e1\<lparr>defeated := False, enemy_x := originalX e1, enemy_y := originalY e1,
                    enemy_vel_x := 50\<rparr>
            else e1)
      else
        (let e1 = (if enemy_facingRight enemy then
                     (let e = enemy\<lparr>enemy_x := enemy_x enemy + enemy_vel_x enemy * dt\<rparr>
                      in if enemy_x e \<ge> rightBound e then e\<lparr>enemy_facingRight := False\<rparr> else e)
                   else
                     (let e = enemy\<lparr>enemy_x := enemy_x enemy - enemy_vel_x enemy * dt\<rparr>
                      in if enemy_x e \<le> leftBound e then e\<lparr>enemy_facingRight := True\<rparr> else e));
             e2 = e1\<lparr>enemy_animationTimer := enemy_animationTimer e1 + dt\<rparr>
         in if enemy_animationTimer e2 \<ge> 0.2
            then e2\<lparr>enemy_animationTimer := 0,
                    enemy_animationFrame := (enemy_animationFrame e2 + 1) mod 2\<rparr>
            else e2))"

definition updateEnemies :: "real \<Rightarrow> enemy list \<Rightarrow> enemy list" where
  "updateEnemies dt es = map (updateEnemy dt) es"

subsection \<open>Interaction resolution\<close>

definition checkRectCollision ::
  "real \<Rightarrow> real \<Rightarrow> real \<Rightarrow> real \<Rightarrow> real \<Rightarrow> real \<Rightarrow> real \<Rightarrow> real \<Rightarrow> bool" where
  "checkRectCollision x1 y1 w1 h1 x2 y2 w2 h2 \<longleftrightarrow>
     x1 < x2 + w2 \<and> x1 + w1 > x2 \<and> y1 < y2 + h2 \<and> y1 + h1 > y2"

text \<open>
  \<^verbatim>\<open>checkCharacterEnemyCollision\<close> returns false unless the two bounding boxes
  overlap, and otherwise the outcome of its scan of the two sprites' pixel masks over
  the overlap rectangle. The scan reads constant sprite data only and changes nothing;
  it is the parameter \<open>pixelScan\<close> of everything that follows.
\<close>

type_synonym pixel_scan = "player \<Rightarrow> enemy \<Rightarrow> bool"

definition checkCharacterEnemyCollision :: "pixel_scan \<Rightarrow> player \<Rightarrow> enemy \<Rightarrow> bool" where
  "checkCharacterEnemyCollision pixelScan character enemy =
     (if \<not> checkRectCollision (pos_x character) (pos_y character) (width character)
              (height character) (enemy_x enemy) (enemy_y enemy) (enemy_width enemy)
              (enemy_height enemy)
      then False
      else pixelScan character enemy)"

text \<open>The condition under which \<^verbatim>\<open>checkCollisions\<close> treats a contact as a stomp.\<close>

definition landingOnTop :: "player \<Rightarrow> enemy \<Rightarrow> bool" where
  "landingOnTop player enemy =
     (let playerBottom = pos_y player + height player;
          playerFeet = playerBottom - 2;
          enemyTop = enemy_y enemy
      in vel_y player > 0 \<and> playerFeet \<le> enemyTop \<and> playerBottom \<ge> enemyTop \<and>
         pos_x player + 4 < enemy_x enemy + enemy_width enemy \<and>
         pos_x player + width player - 4 > enemy_x enemy)"

text \<open>One player against one enemy: the body of the inner \<^verbatim>\<open>enemies.forEach\<close>.\<close>

definition playerEnemy :: "pixel_scan \<Rightarrow> player \<Rightarrow> enemy \<Rightarrow> player \<times> enemy" where
  "playerEnemy pixelScan player enemy =
     (if \<not> defeated enemy then
        (if landingOnTop player enemy
         then (player\<lparr>vel_y := jumpSpeed * 0.7\<rparr>,
               enemy\<lparr>defeated := True, respawnTimer := 5\<rparr>)
         else if checkCharacterEnemyCollision pixelScan player enemy
         then (playerHit player, enemy)
         else (player, enemy))
      else (player, enemy))"

fun playerEnemies :: "pixel_scan \<Rightarrow> player \<Rightarrow> enemy list \<Rightarrow> player \<times> enemy list" where
  "playerEnemies pixelScan player [] = (player, [])"
| "playerEnemies pixelScan player (e # es) =
     (let (p1, e1) = playerEnemy pixelScan player e;
          (p2, es2) = playerEnemies pixelScan p1 es
      in (p2, e1 # es2))"

text \<open>One player against one collectible: the body of \<^verbatim>\<open>collectibles.forEach\<close>.\<close>

definition pickup :: "player \<Rightarrow> collectible \<Rightarrow> collectible" where
  "pickup player c =
     (if \<not> collected c \<and>
         checkRectCollision (pos_x player) (pos_y player) (width player) (height player)
           (coin_x c) (coin_y c) (coin_width c) (coin_height c)
      then c\<lparr>collected := True\<rparr>
      else c)"

text \<open>
  \<^verbatim>\<open>checkCollisions\<close>: the players in the order of \<^verbatim>\<open>Object.values\<close>, each first
  against every enemy and then against every collectible; the enemy and collectible
  arrays are shared by all iterations.
\<close>

fun checkCollisions ::
  "pixel_scan \<Rightarrow> (string \<times> player) list \<Rightarrow> enemy list \<Rightarrow> collectible list \<Rightarrow>
   (string \<times> player) list \<times> enemy list \<times> collectible list" where
  "checkCollisions pixelScan [] es cs = ([], es, cs)"
| "checkCollisions pixelScan ((pid, p) # ps) es cs =
     (let (p1, es1) = playerEnemies pixelScan p es;
          cs1 = map (pickup p1) cs;
          (ps2, es2, cs2) = checkCollisions pixelScan ps es1 cs1
      in ((pid, p1) # ps2, es2, cs2))"

subsection \<open>The server: state, messages, tick\<close>

text \<open>
  \<^verbatim>\<open>gameState\<close> together with the \<^verbatim>\<open>heartbeats\<close> table. \<^verbatim>\<open>players\<close> is an object
  keyed by player id, kept as an association list in insertion order, the order in
  which \<^verbatim>\<open>Object.entries\<close> enumerates it.
\<close>

record server_state =
  players :: "(string \<times> player) list"
  enemies :: "enemy list"
  collectibles :: "collectible list"
  world_map :: grid
  heartbeats :: "string \<rightharpoonup> int"

definition initializeGameState :: server_state where
  "initializeGameState =
     \<lparr>players = [], enemies = createEnemies, collectibles = createCollectibles,
      world_map = createMap, heartbeats = Map.empty\<rparr>"

datatype client_msg =
    Heartbeat
  | Input key_state int
  | CollectCoin int
  | SwordAttack string real real real real bool
  | Disconnect

text \<open>\<^verbatim>\<open>now - heartbeats[id] > INACTIVITY_TIMEOUT\<close>; false when the entry is absent.\<close>

definition timedOut :: "(string \<rightharpoonup> int) \<Rightarrow> int \<Rightarrow> string \<Rightarrow> bool" where
  "timedOut hb now pid =
     (case hb pid of None \<Rightarrow> False | Some t \<Rightarrow> now - t > INACTIVITY_TIMEOUT)"

definition removePlayer :: "string \<Rightarrow> server_state \<Rightarrow> server_state" where
  "removePlayer pid st =
     st\<lparr>players := AList.delete pid (players st), heartbeats := (heartbeats st)(pid := None)\<rparr>"

text \<open>The handler of a \<^verbatim>\<open>collectCoin\<close> message.\<close>

definition collectCoin :: "int \<Rightarrow> server_state \<Rightarrow> server_state" where
  "collectCoin coinIndex st =
     (if coinIndex \<ge> 0 \<and> coinIndex < int (length (collectibles st))
      then st\<lparr>collectibles :=
                 (collectibles st)[nat coinIndex :=
                    (collectibles st ! nat coinIndex)\<lparr>collected := True\<rparr>]\<rparr>
      else st)"

text \<open>The part of \<^verbatim>\<open>handleSwordAttack\<close> that changes the state.\<close>

definition swordHit :: "real \<Rightarrow> real \<Rightarrow> real \<Rightarrow> real \<Rightarrow> enemy \<Rightarrow> enemy" where
  "swordHit swordX swordY swordWidth swordHeight enemy =
     (if defeated enemy then enemy
      else if checkRectCollision swordX swordY swordWidth swordHeight
                (enemy_x enemy) (enemy_y enemy) (enemy_width enemy) (enemy_height enemy)
      then enemy\<lparr>defeated := True, respawnTimer := 5\<rparr>
      else enemy)"

definition handleSwordAttack ::
  "string \<Rightarrow> real \<Rightarrow> real \<Rightarrow> real \<Rightarrow> real \<Rightarrow> server_state \<Rightarrow> server_state" where
  "handleSwordAttack attacker swordX swordY swordWidth swordHeight st =
     (case map_of (players st) attacker of
        None \<Rightarrow> st
      | Some _ \<Rightarrow> st\<lparr>enemies := map (swordHit swordX swordY swordWidth swordHeight) (enemies st)\<rparr>)"

text \<open>
  The \<^verbatim>\<open>message\<close> handler of the connection of player \<open>playerId\<close>, at time \<open>now\<close>.
\<close>

fun onMessage :: "int \<Rightarrow> string \<Rightarrow> client_msg \<Rightarrow> server_state \<Rightarrow> server_state" where
  "onMessage now playerId Heartbeat st = st\<lparr>heartbeats := (heartbeats st)(playerId \<mapsto> now)\<rparr>"
| "onMessage now playerId (Input ks sq) st =
     (case map_of (players st) playerId of
        None \<Rightarrow> st
      | Some p \<Rightarrow>
          st\<lparr>players := AList.update playerId (p\<lparr>keys := Some ks, lastProcessedInput := sq\<rparr>)
                          (players st),
             heartbeats := (heartbeats st)(playerId \<mapsto> now)\<rparr>)"
| "onMessage now playerId (CollectCoin coinIndex) st = collectCoin coinIndex st"
| "onMessage now playerId (SwordAttack attacker sx sy sw sh fr) st =
     handleSwordAttack attacker sx sy sw sh st"
| "onMessage now playerId Disconnect st = removePlayer playerId st"

definition onConnection :: "int \<Rightarrow> string \<Rightarrow> server_state \<Rightarrow> server_state" where
  "onConnection now playerId st =
     st\<lparr>players := AList.update playerId (new_player playerId) (players st),
        heartbeats := (heartbeats st)(playerId \<mapsto> now)\<rparr>"

text \<open>
  The game loop's callback. A player whose heartbeat is older than the inactivity
  window is removed; every other player is updated with \<open>dt = TICK_RATE / 1000\<close>; then
  the enemies move and the interactions are resolved.
\<close>

definition tick :: "pixel_scan \<Rightarrow> int \<Rightarrow> server_state \<Rightarrow> server_state" where
  "tick pixelScan now st =
     (let alive = filter (\<lambda>(pid, p). \<not> timedOut (heartbeats st) now pid) (players st);
          hb = (\<lambda>pid. if pid \<in> fst ` set (players st) \<and> timedOut (heartbeats st) now pid
                       then None else heartbeats st pid);
          moved = map (\<lambda>(pid, p). (pid, updatePlayer (TICK_RATE / 1000) (world_map st) p)) alive;
          es = updateEnemies (TICK_RATE / 1000) (enemies st);
          (ps1, es1, cs1) = checkCollisions pixelScan moved es (collectibles st)
      in st\<lparr>players := ps1, enemies := es1, collectibles := cs1, heartbeats := hb\<rparr>)"

text \<open>The heartbeat monitor's callback.\<close>

definition heartbeatCheck :: "int \<Rightarrow> server_state \<Rightarrow> server_state" where
  "heartbeatCheck now st =
     st\<lparr>players := filter (\<lambda>(pid, p). \<not> timedOut (heartbeats st) now pid) (players st),
        heartbeats := (\<lambda>pid. if timedOut (heartbeats st) now pid then None
                              else heartbeats st pid)\<rparr>"


text \<open>The server's event loop: every callback runs to completion, one after another.\<close>

datatype server_event =
    Connection int string
  | Message int string client_msg
  | Close string
  | Tick int
  | HeartbeatCheck int

fun serverStep :: "pixel_scan \<Rightarrow> server_state \<Rightarrow> server_event \<Rightarrow> server_state" where
  "serverStep pixelScan st (Connection now pid) = onConnection now pid st"
| "serverStep pixelScan st (Message now pid msg) = onMessage now pid msg st"
| "serverStep pixelScan st (Close pid) = removePlayer pid st"
| "serverStep pixelScan st (Tick now) = tick pixelScan now st"
| "serverStep pixelScan st (HeartbeatCheck now) = heartbeatCheck now st"

definition serverRun :: "pixel_scan \<Rightarrow> server_event list \<Rightarrow> server_state" where
  "serverRun pixelScan evs = foldl (serverStep pixelScan) initializeGameState evs"

subsection \<open>The client: pending inputs, reconciliation, notifications\<close>

text \<open>
  An entry of \<^verbatim>\<open>pendingInputs\<close>: the input message as sent, with the frame time
  \<^verbatim>\<open>dt\<close> added.
\<close>

record pending_input =
  sequence :: int
  input_keys :: key_state
  timestamp :: real
  input_dt :: real

text \<open>The fields of the client's \<^verbatim>\<open>character\<close> that reconciliation reads or writes.\<close>

record character =
  ch_pos_x :: real
  ch_pos_y :: real
  ch_vel_x :: real
  ch_vel_y :: real
  ch_speed :: real
  ch_onGround :: bool
  ch_facingRight :: bool

text \<open>
  The client's globals. \<open>socket_open\<close> is the test
  \<^verbatim>\<open>socket && socket.readyState === WebSocket.OPEN\<close>; \<open>outbox\<close> collects what
  \<^verbatim>\<open>socket.send\<close> was given, oldest first; \<open>played\<close> collects the calls of
  \<^verbatim>\<open>playSound\<close>. The client's enemies carry the server's fields (the fields added
  for interpolation are not needed here).
\<close>

record client_state =
  socket_open :: bool
  client_playerId :: "string option"
  pendingInputs :: "pending_input list"
  client_character :: character
  client_keys :: key_state
  client_enemies :: "enemy list"
  score :: int
  outbox :: "client_msg list"
  played :: "string list"

definition client_init :: "character \<Rightarrow> key_state \<Rightarrow> client_state" where
  "client_init ch ks =
     \<lparr>socket_open = False, client_playerId = None, pendingInputs = [],
      client_character = ch, client_keys = ks, client_enemies = [], score = 0,
      outbox = [], played = []\<rparr>"

text \<open>\<^verbatim>\<open>sendInputToServer\<close>, called at time \<open>now\<close> (\<^verbatim>\<open>performance.now()\<close>).\<close>

definition sendInputToServer :: "real \<Rightarrow> client_state \<Rightarrow> client_state" where
  "sendInputToServer now st =
     (if socket_open st then
        (let sq = (if length (pendingInputs st) > 0
                   then sequence (last (pendingInputs st)) + 1 else 1);
             pushed = pendingInputs st @
                        [\<lparr>sequence = sq, input_keys = client_keys st, timestamp = now,
                          input_dt = 1 / 60\<rparr>]
         in st\<lparr>outbox := outbox st @ [Input (client_keys st) sq],
               pendingInputs := (if length pushed > 20 then tl pushed else pushed)\<rparr>)
      else st)"

text \<open>The replay of one pending input in \<^verbatim>\<open>reconcilePlayerPosition\<close>.\<close>

definition replayInput :: "character \<Rightarrow> pending_input \<Rightarrow> character" where
  "replayInput ch input =
     (let c1 = (if key_left (input_keys input)
                then ch\<lparr>ch_pos_x := ch_pos_x ch - ch_speed ch * input_dt input\<rparr> else ch)
      in if key_right (input_keys input)
         then c1\<lparr>ch_pos_x := ch_pos_x c1 + ch_speed c1 * input_dt input\<rparr> else c1)"

definition reconcilePlayerPosition :: "player \<Rightarrow> client_state \<Rightarrow> client_state" where
  "reconcilePlayerPosition serverPlayer st =
     (let serverSequence = (if lastProcessedInput serverPlayer \<noteq> 0
                            then lastProcessedInput serverPlayer else 0);
          remaining = filter (\<lambda>input. sequence input > serverSequence) (pendingInputs st);
          ch = (client_character st)
                 \<lparr>ch_pos_x := pos_x serverPlayer, ch_pos_y := pos_y serverPlayer,
                  ch_vel_x := vel_x serverPlayer, ch_vel_y := vel_y serverPlayer,
                  ch_onGround := onGround serverPlayer,
                  ch_facingRight := facingRight serverPlayer\<rparr>
      in st\<lparr>pendingInputs := remaining, client_character := foldl replayInput ch remaining\<rparr>)"

text \<open>The case \<^verbatim>\<open>'enemyDefeated'\<close> of \<^verbatim>\<open>handleServerMessage\<close>.\<close>

definition onEnemyDefeated :: "int \<Rightarrow> string \<Rightarrow> client_state \<Rightarrow> client_state" where
  "onEnemyDefeated enemyIndex pid st =
     (if enemyIndex \<ge> 0 \<and> enemyIndex < int (length (client_enemies st)) then
        (let st1 = st\<lparr>client_enemies :=
                        (client_enemies st)[nat enemyIndex :=
                           (client_enemies st ! nat enemyIndex)\<lparr>defeated := True\<rparr>]\<rparr>;
             st2 = (if Some pid = client_playerId st1 then st1\<lparr>score := score st1 + 50\<rparr>
                    else st1)
         in st2\<lparr>played := played st2 @ [''enemyDefeat'']\<rparr>)
      else st)"

text \<open>
  What happens to the client between page load and unload, as far as the pending
  inputs are concerned: the socket opens or closes, a key event changes the key state
  and sends it, or a snapshot with the local player arrives.
\<close>

datatype client_event =
    SocketOpened
  | SocketClosed
  | KeyChange key_state real
  | Snapshot player

fun clientStep :: "client_state \<Rightarrow> client_event \<Rightarrow> client_state" where
  "clientStep st SocketOpened = st\<lparr>socket_open := True\<rparr>"
| "clientStep st SocketClosed = st\<lparr>socket_open := False\<rparr>"
| "clientStep st (KeyChange ks now) = sendInputToServer now (st\<lparr>client_keys := ks\<rparr>)"
| "clientStep st (Snapshot serverPlayer) = reconcilePlayerPosition serverPlayer st"

text \<open>
  The body of the \<^verbatim>\<open>forEach\<close> of the client's own \<^verbatim>\<open>updateEnemies(dt)\<close>, run when
  there is no connection; \<open>rnd\<close> is the value of \<^verbatim>\<open>Math.random()\<close>.
\<close>

definition updateEnemyClient :: "real \<Rightarrow> real \<Rightarrow> enemy \<Rightarrow> enemy" where
  "updateEnemyClient dt rnd enemy =
     (if defeated enemy then
        (let e1 = enemy\<lparr>respawnTimer := respawnTimer enemy + dt\<rparr>
         in if respawnTimer e1 \<ge> 5
            then (let v = 50 * (if rnd > 0.5 then 1 else - 1)
                  in e1\<lparr>defeated := False, respawnTimer := 0, enemy_x := originalX e1,
                        enemy_y := originalY e1, enemy_vel_x := v,
                        enemy_facingRight := (v > 0)\<rparr>)
            else e1)
      else
        (let e0 = enemy\<lparr>enemy_x := enemy_x enemy + enemy_vel_x enemy * dt\<rparr>;
             e1 = (if enemy_x e0 \<le> leftBound e0
                   then e0\<lparr>enemy_x := leftBound e0, enemy_vel_x := \<bar>enemy_vel_x e0\<bar>,
                           enemy_facingRight := True\<rparr>
                   else if enemy_x e0 \<ge> rightBound e0
                   then e0\<lparr>enemy_x := rightBound e0, enemy_vel_x := - \<bar>enemy_vel_x e0\<bar>,
                           enemy_facingRight := False\<rparr>
                   else e0);
             e2 = e1\<lparr>enemy_animationTimer := enemy_animationTimer e1 + dt\<rparr>
         in if enemy_animationTimer e2 > 0.2
            then e2\<lparr>enemy_animationTimer := 0,
                    enemy_animationFrame := (enemy_animationFrame e2 + 1) mod 2\<rparr>
            else e2))"

subsection \<open>Auxiliary notions and concrete inputs\<close>

text \<open>
  The horizontal distance that the replay of one pending input adds for a character
  of speed \<open>sp\<close>.
\<close>

definition netMove :: "real \<Rightarrow> pending_input \<Rightarrow> real" where
  "netMove sp input =
     (if key_right (input_keys input) then sp * input_dt input else 0) -
     (if key_left (input_keys input) then sp * input_dt input else 0)"

definition no_keys :: key_state where
  "no_keys = \<lparr>key_left = False, key_right = False, key_jump = False,
     key_jumpJustPressed = False, key_attack = False, key_attackJustPressed = False\<rparr>"

definition right_keys :: key_state where
  "right_keys = no_keys\<lparr>key_right := True\<rparr>"

definition start_character :: character where
  "start_character = \<lparr>ch_pos_x = 50, ch_pos_y = 100, ch_vel_x = 0, ch_vel_y = 0,
     ch_speed = 150, ch_onGround = False, ch_facingRight = True\<rparr>"

text \<open>A pixel scan that never reports a contact.\<close>

definition no_scan :: pixel_scan where
  "no_scan = (\<lambda>character enemy. False)"

text \<open>A client that has received the handshake of the server's initial world.\<close>

definition connected_client :: client_state where
  "connected_client =
     (client_init start_character no_keys)
       \<lparr>socket_open := True, client_playerId := Some ''1'', client_enemies := createEnemies\<rparr>"

text \<open>The first enemy of the world, and the same enemy one tick before its respawn.\<close>

definition slime :: enemy where
  "slime = addEnemy 200 (238 - 16) ''slime'' 150 250"

definition beaten_slime :: enemy where
  "beaten_slime = slime\<lparr>enemy_x := 230, defeated := True, respawnTimer := 1 / 100\<rparr>"

text \<open>
  Two falling players whose feet are one pixel below the top of \<^const>\<open>slime\<close>: the
  first overlaps it by four pixels exactly, the second by eleven.
\<close>

definition edge_player :: player where
  "edge_player = (new_player ''1'')\<lparr>pos_x := 188, pos_y := 199, vel_y := 100\<rparr>"

definition stomping_player :: player where
  "stomping_player = (new_player ''1'')\<lparr>pos_x := 195, pos_y := 199, vel_y := 100\<rparr>"

text \<open>A coin that has been collected and one within reach of a new player.\<close>

definition taken_coin :: collectible where
  "taken_coin = (addCollectible 150 160 ''coin'')\<lparr>collected := True\<rparr>"

definition near_coin :: collectible where
  "near_coin = addCollectible 55 110 ''coin''"

text \<open>
  The player of the tick scenario: spawned at \<open>(50, 100)\<close> with zero velocity, its
  stored input \<^verbatim>\<open>{right: true}\<close> with sequence 1.
\<close>

definition walker :: player where
  "walker = (new_player ''1'')\<lparr>keys := Some right_keys, lastProcessedInput := 1\<rparr>"

text \<open>
  A player in free fall above the platform that \<^verbatim>\<open>createPlatform(100, 180, 150)\<close>
  lays in row 180: its feet are at \<open>178.6\<close> and it falls at 496 units per second.
\<close>

definition faller :: player where
  "faller = (new_player ''1'')\<lparr>pos_x := 120, pos_y := 773 / 5, vel_y := 496\<rparr>"

text \<open>One hundred ticks of the game loop and nothing else.\<close>

definition hundred_ticks :: "server_event list" where
  "hundred_ticks = replicate 100 (Tick 0)"

text \<open>
  The invariant behind the containment of the server's enemies. Positions and bounds
  are multiples of one half, the distance an enemy covers in a tick; an enemy that
  stands on a bound has already turned.
\<close>

definition on_half_grid :: "real \<Rightarrow> bool" where
  "on_half_grid v \<longleftrightarrow> of_int \<lfloor>2 * v\<rfloor> = 2 * v"

definition patrol_inv :: "enemy \<Rightarrow> bool" where
  "patrol_inv e \<longleftrightarrow>
     on_half_grid (enemy_x e) \<and> on_half_grid (leftBound e) \<and> on_half_grid (rightBound e) \<and>
     on_half_grid (originalX e) \<and> leftBound e < originalX e \<and> originalX e < rightBound e \<and>
     enemy_vel_x e = 50 \<and> leftBound e \<le> enemy_x e \<and> enemy_x e \<le> rightBound e \<and>
     (enemy_x e = rightBound e \<longrightarrow> \<not> enemy_facingRight e) \<and>
     (enemy_x e = leftBound e \<longrightarrow> enemy_facingRight e)"

text \<open>
  What interaction resolution can do to an enemy: nothing, or defeat it if it was not
  defeated.
\<close>

definition defeat_or_same :: "enemy \<Rightarrow> enemy \<Rightarrow> bool" where
  "defeat_or_same e e' \<longleftrightarrow>
     e' = e \<or> (\<not> defeated e \<and> e' = e\<lparr>defeated := True, respawnTimer := 5\<rparr>)"

text \<open>A world without players in which the second enemy is about to respawn.\<close>

definition respawn_state :: server_state where
  "respawn_state = initializeGameState\<lparr>enemies := [slime, beaten_slime]\<rparr>"

text \<open>
  The interaction resolution examines the pairs one after another: the players in
  order, each against the enemies in order. \<open>enemiesFoundBy\<close> is the enemy array as
  the player at index \<open>a\<close> finds it, after the players before it have been resolved;
  \<open>playerMeeting\<close> is a player as it comes to the enemy at index \<open>i\<close>, after the
  enemies before it.
\<close>

definition enemiesFoundBy ::
  "pixel_scan \<Rightarrow> (string \<times> player) list \<Rightarrow> enemy list \<Rightarrow> collectible list \<Rightarrow> nat \<Rightarrow> enemy list" where
  "enemiesFoundBy pixelScan ps es cs a = fst (snd (checkCollisions pixelScan (take a ps) es cs))"

definition playerMeeting :: "pixel_scan \<Rightarrow> player \<Rightarrow> enemy list \<Rightarrow> nat \<Rightarrow> player" where
  "playerMeeting pixelScan p es i = fst (playerEnemies pixelScan p (take i es))"

text \<open>
  Two players, the first at the spawn point, the second falling onto the robot, the
  second enemy of the world.
\<close>

definition robot_stomper :: player where
  "robot_stomper = (new_player ''2'')\<lparr>pos_x := 395, pos_y := 199, vel_y := 100\<rparr>"

definition two_players :: "(string \<times> player) list" where
  "two_players = [(''1'', new_player ''1''), (''2'', robot_stomper)]"

section \<open>Properties\<close>

subsection \<open>The pending-input queue\<close>

lemma send_keeps_bound:
  "length (pendingInputs st) \<le> 20 \<Longrightarrow> length (pendingInputs (sendInputToServer now st)) \<le> 20"
  by (simp add: sendInputToServer_def Let_def)

lemma reconcile_shrinks:
  "length (pendingInputs (reconcilePlayerPosition sp st)) \<le> length (pendingInputs st)"
  by (simp add: reconcilePlayerPosition_def Let_def)

lemma clientStep_keeps_bound:
  "length (pendingInputs st) \<le> 20 \<Longrightarrow> length (pendingInputs (clientStep st ev)) \<le> 20"
proof (cases ev)
  case (KeyChange ks now)
  assume "length (pendingInputs st) \<le> 20"
  then have "length (pendingInputs (st\<lparr>client_keys := ks\<rparr>)) \<le> 20" by simp
  then show ?thesis unfolding KeyChange clientStep.simps by (rule send_keeps_bound)
next
  case (Snapshot sp)
  assume "length (pendingInputs st) \<le> 20"
  with reconcile_shrinks [of sp st] show ?thesis unfolding Snapshot by simp
qed simp_all

lemma client_run_keeps_bound:
  "length (pendingInputs st) \<le> 20 \<Longrightarrow> length (pendingInputs (foldl clientStep st evs)) \<le> 20"
  by (induction evs arbitrary: st) (simp_all add: clientStep_keeps_bound)

text \<open>
  Claim C10. The pending-input queue is bounded: whatever sequence of socket changes,
  key changes (each a call of \<^verbatim>\<open>sendInputToServer\<close>) and snapshots (each a
  reconciliation) the client goes through from its initial state, \<^verbatim>\<open>pendingInputs\<close>
  holds at most 20 entries afterwards, so at most 20 inputs are ever replayed.
\<close>

theorem pendingInputs_at_most_20:
  "length (pendingInputs (foldl clientStep (client_init ch ks) evs)) \<le> 20"
  by (rule client_run_keeps_bound) (simp add: client_init_def)

lemma replay_pos_x:
  "ch_pos_x (foldl replayInput ch ins) = ch_pos_x ch + sum_list (map (netMove (ch_speed ch)) ins)"
  by (induction ins arbitrary: ch) (simp_all add: replayInput_def Let_def netMove_def)

lemma replay_other:
  "ch_pos_y (foldl replayInput ch ins) = ch_pos_y ch \<and>
   ch_vel_x (foldl replayInput ch ins) = ch_vel_x ch \<and>
   ch_vel_y (foldl replayInput ch ins) = ch_vel_y ch \<and>
   ch_onGround (foldl replayInput ch ins) = ch_onGround ch \<and>
   ch_facingRight (foldl replayInput ch ins) = ch_facingRight ch"
  by (induction ins arbitrary: ch) (simp_all add: replayInput_def Let_def)

text \<open>
  Claim C5. Reconciliation with a snapshot whose acknowledged sequence number is
  \<open>S = lastProcessedInput serverPlayer\<close> leaves in the queue exactly the inputs with
  sequence greater than \<open>S\<close>, in their original order. The character's position,
  velocity and ground flag are overwritten with the server's values before the
  replay: the replay only moves \<open>pos_x\<close>, by the sum of the remaining inputs' moves
  from the server's \<open>pos_x\<close>, and every other overwritten field ends with the server's
  value.
\<close>

theorem reconcile_trims_and_replays:
  "pendingInputs (reconcilePlayerPosition serverPlayer st) =
     filter (\<lambda>input. sequence input > lastProcessedInput serverPlayer) (pendingInputs st) \<and>
   ch_pos_x (client_character (reconcilePlayerPosition serverPlayer st)) =
     pos_x serverPlayer +
     sum_list (map (netMove (ch_speed (client_character st)))
                 (pendingInputs (reconcilePlayerPosition serverPlayer st))) \<and>
   ch_pos_y (client_character (reconcilePlayerPosition serverPlayer st)) = pos_y serverPlayer \<and>
   ch_vel_x (client_character (reconcilePlayerPosition serverPlayer st)) = vel_x serverPlayer \<and>
   ch_vel_y (client_character (reconcilePlayerPosition serverPlayer st)) = vel_y serverPlayer \<and>
   ch_onGround (client_character (reconcilePlayerPosition serverPlayer st)) =
     onGround serverPlayer"
  by (simp add: reconcilePlayerPosition_def Let_def replay_pos_x replay_other)

subsection \<open>Collectibles and stale indices\<close>

lemma collectCoin_in_bounds:
  assumes "0 \<le> coinIndex" and "coinIndex < int (length (collectibles st))"
  shows "length (collectibles (collectCoin coinIndex st)) = length (collectibles st)"
    and "collectibles (collectCoin coinIndex st) ! nat coinIndex
           = (collectibles st ! nat coinIndex)\<lparr>collected := True\<rparr>"
    and "j \<noteq> nat coinIndex \<Longrightarrow> collectibles (collectCoin coinIndex st) ! j = collectibles st ! j"
    and "players (collectCoin coinIndex st) = players st"
    and "enemies (collectCoin coinIndex st) = enemies st"
    and "world_map (collectCoin coinIndex st) = world_map st"
    and "heartbeats (collectCoin coinIndex st) = heartbeats st"
proof -
  from assms have n: "nat coinIndex < length (collectibles st)" by linarith
  from assms show "length (collectibles (collectCoin coinIndex st)) = length (collectibles st)"
    by (simp add: collectCoin_def)
  from assms n show "collectibles (collectCoin coinIndex st) ! nat coinIndex
           = (collectibles st ! nat coinIndex)\<lparr>collected := True\<rparr>"
    by (simp add: collectCoin_def)
  from assms show "j \<noteq> nat coinIndex \<Longrightarrow>
      collectibles (collectCoin coinIndex st) ! j = collectibles st ! j"
    by (simp add: collectCoin_def)
  from assms show "players (collectCoin coinIndex st) = players st"
    "enemies (collectCoin coinIndex st) = enemies st"
    "world_map (collectCoin coinIndex st) = world_map st"
    "heartbeats (collectCoin coinIndex st) = heartbeats st"
    by (simp_all add: collectCoin_def)
qed

lemma collectCoin_out_of_bounds:
  "\<not> (0 \<le> coinIndex \<and> coinIndex < int (length (collectibles st))) \<Longrightarrow>
   collectCoin coinIndex st = st"
  by (auto simp: collectCoin_def)

lemma onEnemyDefeated_out_of_bounds:
  "\<not> (0 \<le> enemyIndex \<and> enemyIndex < int (length (client_enemies cl))) \<Longrightarrow>
   onEnemyDefeated enemyIndex attacker cl = cl"
  by (auto simp: onEnemyDefeated_def)

text \<open>
  Claim C9. A \<^verbatim>\<open>collectCoin\<close> message sets \<^verbatim>\<open>collectibles[coinIndex].collected\<close>
  exactly when \<open>0 \<le> coinIndex < collectibles.length\<close>: in that case only this flag
  changes, and otherwise the whole game state is unchanged. A client that receives
  \<^verbatim>\<open>enemyDefeated\<close> with an index outside its enemies array keeps its whole state
  (enemies, score and everything else).
\<close>

theorem stale_index_guard:
  fixes st :: server_state and cl :: client_state
  shows
  "(0 \<le> coinIndex \<and> coinIndex < int (length (collectibles st)) \<longrightarrow>
      (let st' = onMessage now pid (CollectCoin coinIndex) st in
         length (collectibles st') = length (collectibles st) \<and>
         collectibles st' ! nat coinIndex = (collectibles st ! nat coinIndex)\<lparr>collected := True\<rparr> \<and>
         (\<forall>j. j \<noteq> nat coinIndex \<longrightarrow> collectibles st' ! j = collectibles st ! j) \<and>
         players st' = players st \<and> enemies st' = enemies st \<and>
         world_map st' = world_map st \<and> heartbeats st' = heartbeats st)) \<and>
   (\<not> (0 \<le> coinIndex \<and> coinIndex < int (length (collectibles st))) \<longrightarrow>
      onMessage now pid (CollectCoin coinIndex) st = st) \<and>
   (\<not> (0 \<le> enemyIndex \<and> enemyIndex < int (length (client_enemies cl))) \<longrightarrow>
      onEnemyDefeated enemyIndex attacker cl = cl)"
  using collectCoin_in_bounds [of coinIndex st] collectCoin_out_of_bounds [of coinIndex st]
        onEnemyDefeated_out_of_bounds [of enemyIndex cl attacker]
  by (simp add: Let_def)

theorem stale_index_guard_witness:
  "collected (collectibles (onMessage 0 ''1'' (CollectCoin 3) initializeGameState) ! 3) \<and>
   \<not> collected (collectibles (onMessage 0 ''1'' (CollectCoin 3) initializeGameState) ! 2) \<and>
   onMessage 0 ''1'' (CollectCoin 11) initializeGameState = initializeGameState \<and>
   onMessage 0 ''1'' (CollectCoin (- 1)) initializeGameState = initializeGameState \<and>
   onEnemyDefeated 3 ''1'' connected_client = connected_client \<and>
   onEnemyDefeated (- 1) ''1'' connected_client = connected_client"
  using stale_index_guard [of 3 initializeGameState 0 "''1''" 3 connected_client "''1''"]
        stale_index_guard [of 11 initializeGameState 0 "''1''" "- 1" connected_client "''1''"]
        stale_index_guard [of "- 1" initializeGameState 0 "''1''" 3 connected_client "''1''"]
  by (simp add: initializeGameState_def createCollectibles_def addCollectible_def
        connected_client_def client_init_def createEnemies_def Let_def)

lemma pickup_collected: "collected c \<Longrightarrow> pickup p c = c"
  by (simp add: pickup_def)

lemma pickup_changes:
  assumes "pickup p c \<noteq> c"
  shows "\<not> collected c \<and> pickup p c = c\<lparr>collected := True\<rparr>"
proof (cases "\<not> collected c \<and>
         checkRectCollision (pos_x p) (pos_y p) (width p) (height p)
           (coin_x c) (coin_y c) (coin_width c) (coin_height c)")
  case True
  then show ?thesis by (simp add: pickup_def)
next
  case False
  then have "pickup p c = c" unfolding pickup_def by (rule if_not_P)
  with assms show ?thesis by contradiction
qed

lemma checkCollisions_keeps_collected:
  "j < length cs \<Longrightarrow> collected (cs ! j) \<Longrightarrow> snd (snd (checkCollisions px ps es cs)) ! j = cs ! j"
proof (induction ps arbitrary: es cs)
  case Nil
  then show ?case by simp
next
  case (Cons a ps)
  obtain pid p where a: "a = (pid, p)" by (cases a)
  let ?p1 = "fst (playerEnemies px p es)"
  let ?es1 = "snd (playerEnemies px p es)"
  let ?cs1 = "map (pickup ?p1) cs"
  from Cons.prems have same: "?cs1 ! j = cs ! j" by (simp add: pickup_collected)
  with Cons.prems have "j < length ?cs1" "collected (?cs1 ! j)" by simp_all
  then have "snd (snd (checkCollisions px ps ?es1 ?cs1)) ! j = ?cs1 ! j"
    by (rule Cons.IH)
  with same show ?case by (simp add: a split_beta Let_def)
qed

lemma collectCoin_twice:
  "collectCoin coinIndex (collectCoin coinIndex st) = collectCoin coinIndex st"
proof (cases "0 \<le> coinIndex \<and> coinIndex < int (length (collectibles st))")
  case True
  then have "nat coinIndex < length (collectibles st)" by linarith
  with True show ?thesis by (simp add: collectCoin_def)
next
  case False
  then show ?thesis by (auto simp: collectCoin_def)
qed

lemma collectCoin_collected:
  assumes "0 \<le> coinIndex" and "coinIndex < int (length (collectibles st))"
    and "collected (collectibles st ! nat coinIndex)"
  shows "collectCoin coinIndex st = st"
proof -
  from assms(3)
  have e: "(collectibles st ! nat coinIndex)\<lparr>collected := True\<rparr> = collectibles st ! nat coinIndex"
    by (cases "collectibles st ! nat coinIndex") simp
  from assms have "collectCoin coinIndex st =
      st\<lparr>collectibles := (collectibles st)[nat coinIndex :=
           (collectibles st ! nat coinIndex)\<lparr>collected := True\<rparr>]\<rparr>"
    by (simp add: collectCoin_def)
  also have "\<dots> = st\<lparr>collectibles := (collectibles st)[nat coinIndex :=
           collectibles st ! nat coinIndex]\<rparr>"
    by (simp only: e)
  also have "\<dots> = st" by simp
  finally show ?thesis .
qed

text \<open>
  Claim C8. Collecting a collectible a second time is a no-op. A second
  \<^verbatim>\<open>collectCoin\<close> message with the same index leaves the state as the first one left
  it, and a \<^verbatim>\<open>collectCoin\<close> for a coin that is already collected (by a message or by a
  pick-up during a tick) leaves the state unchanged. In a tick, the pick-up leaves a
  collected coin as it is, through the whole of \<^verbatim>\<open>checkCollisions\<close>; when a pick-up
  changes a coin, the coin was not collected and only its flag changes.
\<close>

theorem collection_idempotent:
  fixes st :: server_state
  shows
  "onMessage now' pid' (CollectCoin coinIndex) (onMessage now pid (CollectCoin coinIndex) st)
     = onMessage now pid (CollectCoin coinIndex) st \<and>
   (0 \<le> coinIndex \<and> coinIndex < int (length (collectibles st)) \<and>
      collected (collectibles st ! nat coinIndex) \<longrightarrow>
      onMessage now pid (CollectCoin coinIndex) st = st) \<and>
   (collected c \<longrightarrow> pickup p c = c) \<and>
   (pickup p c \<noteq> c \<longrightarrow> \<not> collected c \<and> pickup p c = c\<lparr>collected := True\<rparr>) \<and>
   (j < length cs \<and> collected (cs ! j) \<longrightarrow>
      snd (snd (checkCollisions pixelScan ps es cs)) ! j = cs ! j)"
proof (intro conjI impI)
  show "onMessage now' pid' (CollectCoin coinIndex) (onMessage now pid (CollectCoin coinIndex) st)
     = onMessage now pid (CollectCoin coinIndex) st"
    unfolding onMessage.simps by (rule collectCoin_twice)
  show "onMessage now pid (CollectCoin coinIndex) st = st"
    if "0 \<le> coinIndex \<and> coinIndex < int (length (collectibles st)) \<and>
      collected (collectibles st ! nat coinIndex)"
    unfolding onMessage.simps using that by (blast intro: collectCoin_collected)
  show "pickup p c = c" if "collected c" using that by (rule pickup_collected)
  show "\<not> collected c" if "pickup p c \<noteq> c" using pickup_changes [OF that] by (rule conjunct1)
  show "pickup p c = c\<lparr>collected := True\<rparr>" if "pickup p c \<noteq> c"
    using pickup_changes [OF that] by (rule conjunct2)
  show "snd (snd (checkCollisions pixelScan ps es cs)) ! j = cs ! j"
    if "j < length cs \<and> collected (cs ! j)"
    using that by (blast intro: checkCollisions_keeps_collected)
qed

theorem collection_idempotent_witness:
  "onMessage 1 ''1'' (CollectCoin 3) (onMessage 0 ''1'' (CollectCoin 3) initializeGameState)
     = onMessage 0 ''1'' (CollectCoin 3) initializeGameState \<and>
   onMessage 1 ''1'' (CollectCoin 0) (initializeGameState\<lparr>collectibles := [taken_coin]\<rparr>)
     = initializeGameState\<lparr>collectibles := [taken_coin]\<rparr> \<and>
   pickup (new_player ''1'') taken_coin = taken_coin \<and>
   pickup (new_player ''1'') near_coin = near_coin\<lparr>collected := True\<rparr> \<and>
   snd (snd (checkCollisions no_scan [(''1'', new_player ''1'')] createEnemies [taken_coin])) ! 0
     = taken_coin"
  using collection_idempotent [where now' = 1 and pid' = "''1''" and coinIndex = 3 and now = 0
          and pid = "''1''" and st = initializeGameState and c = taken_coin
          and p = "new_player ''1''" and j = 0 and cs = "[taken_coin]" and pixelScan = no_scan
          and ps = "[(''1'', new_player ''1'')]" and es = createEnemies]
        collection_idempotent [where now' = 1 and pid' = "''1''" and coinIndex = 0 and now = 1
          and pid = "''1''" and st = "initializeGameState\<lparr>collectibles := [taken_coin]\<rparr>"
          and c = near_coin
          and p = "new_player ''1''" and j = 0 and cs = "[taken_coin]" and pixelScan = no_scan
          and ps = "[(''1'', new_player ''1'')]" and es = createEnemies]
  by (simp add: taken_coin_def near_coin_def addCollectible_def pickup_def new_player_def
        checkRectCollision_def)

subsection \<open>The enemy state machine\<close>

lemma respawn_now:
  assumes "defeated e" and "respawnTimer e - dt \<le> 0"
  shows "\<not> defeated (updateEnemy dt e)" and "enemy_x (updateEnemy dt e) = originalX e"
    and "enemy_y (updateEnemy dt e) = originalY e"
  using assms by (simp_all add: updateEnemy_def Let_def)

lemma respawn_waits:
  assumes "defeated e" and "0 < respawnTimer e - dt"
  shows "updateEnemy dt e = e\<lparr>respawnTimer := respawnTimer e - dt\<rparr>"
  using assms by (simp add: updateEnemy_def Let_def)

lemma respawn_within:
  assumes "defeated e" and "0 < dt" and "respawnTimer e \<le> real k * dt"
  shows "\<exists>n. \<not> defeated ((updateEnemy dt ^^ n) e) \<and>
             enemy_x ((updateEnemy dt ^^ n) e) = originalX e \<and>
             enemy_y ((updateEnemy dt ^^ n) e) = originalY e"
  using assms
proof (induction k arbitrary: e)
  case 0
  then have "respawnTimer e - dt \<le> 0" by simp
  with "0.prems"(1) have "\<not> defeated ((updateEnemy dt ^^ 1) e) \<and>
      enemy_x ((updateEnemy dt ^^ 1) e) = originalX e \<and>
      enemy_y ((updateEnemy dt ^^ 1) e) = originalY e"
    by (simp add: respawn_now)
  then show ?case by blast
next
  case (Suc k)
  show ?case
  proof (cases "respawnTimer e - dt \<le> 0")
    case True
    with Suc.prems(1) have "\<not> defeated ((updateEnemy dt ^^ 1) e) \<and>
        enemy_x ((updateEnemy dt ^^ 1) e) = originalX e \<and>
        enemy_y ((updateEnemy dt ^^ 1) e) = originalY e"
      by (simp add: respawn_now)
    then show ?thesis by blast
  next
    case False
    let ?e = "e\<lparr>respawnTimer := respawnTimer e - dt\<rparr>"
    from False Suc.prems(1) have step: "updateEnemy dt e = ?e" by (simp add: respawn_waits)
    from Suc.prems(3) have "respawnTimer ?e \<le> real k * dt" by (simp add: algebra_simps)
    with Suc.prems(1,2) have "\<exists>n. \<not> defeated ((updateEnemy dt ^^ n) ?e) \<and>
        enemy_x ((updateEnemy dt ^^ n) ?e) = originalX ?e \<and>
        enemy_y ((updateEnemy dt ^^ n) ?e) = originalY ?e"
      by (intro Suc.IH) simp_all
    then obtain n where n: "\<not> defeated ((updateEnemy dt ^^ n) ?e)"
        "enemy_x ((updateEnemy dt ^^ n) ?e) = originalX e"
        "enemy_y ((updateEnemy dt ^^ n) ?e) = originalY e" by auto
    have "(updateEnemy dt ^^ Suc n) e = (updateEnemy dt ^^ n) ?e"
      by (simp add: funpow_swap1 step)
    with n have "\<not> defeated ((updateEnemy dt ^^ Suc n) e) \<and>
        enemy_x ((updateEnemy dt ^^ Suc n) e) = originalX e \<and>
        enemy_y ((updateEnemy dt ^^ Suc n) e) = originalY e" by simp
    then show ?thesis by blast
  qed
qed

lemma respawn_eventually:
  assumes "defeated e" and "0 < dt"
  shows "\<exists>n. \<not> defeated ((updateEnemy dt ^^ n) e) \<and>
             enemy_x ((updateEnemy dt ^^ n) e) = originalX e \<and>
             enemy_y ((updateEnemy dt ^^ n) e) = originalY e"
proof -
  from assms(2) obtain k :: nat where "respawnTimer e < real k * dt"
    using reals_Archimedean3 by blast
  then have "respawnTimer e \<le> real k * dt" by simp
  with assms show ?thesis by (rule respawn_within)
qed

lemma respawn_client:
  assumes "defeated e" and "5 \<le> respawnTimer e + dt"
  shows "\<not> defeated (updateEnemyClient dt rnd e)"
    and "enemy_x (updateEnemyClient dt rnd e) = originalX e"
    and "enemy_y (updateEnemyClient dt rnd e) = originalY e"
  using assms by (simp_all add: updateEnemyClient_def Let_def)

lemma enemies_tick:
  "enemies (tick px now st) =
     fst (snd (checkCollisions px
       (map (\<lambda>(pid, p). (pid, updatePlayer (TICK_RATE / 1000) (world_map st) p))
          (filter (\<lambda>(pid, p). \<not> timedOut (heartbeats st) now pid) (players st)))
       (updateEnemies (TICK_RATE / 1000) (enemies st)) (collectibles st)))"
  by (simp add: tick_def Let_def split_beta)

lemma defeat_or_same_refl: "defeat_or_same e e"
  by (simp add: defeat_or_same_def)

lemma playerEnemy_defeat_or_same: "defeat_or_same e (snd (playerEnemy px p e))"
  by (simp add: playerEnemy_def defeat_or_same_def)

lemma playerEnemy_after_defeat:
  "defeat_or_same e e' \<Longrightarrow> defeat_or_same e (snd (playerEnemy px p e'))"
  by (auto simp: playerEnemy_def defeat_or_same_def)

lemma playerEnemies_length: "length (snd (playerEnemies px p es)) = length es"
  by (induction es arbitrary: p) (simp_all add: split_beta Let_def)

lemma playerEnemies_nth:
  assumes "i < length es'" and "length es' = length es" and "defeat_or_same (es ! i) (es' ! i)"
  shows "defeat_or_same (es ! i) (snd (playerEnemies px p es') ! i)"
  using assms
proof (induction es' arbitrary: p i es)
  case Nil
  then show ?case by simp
next
  case (Cons a es')
  from Cons.prems(2) obtain b bs where es: "es = b # bs" by (cases es) simp_all
  show ?case
  proof (cases i)
    case 0
    with Cons.prems es show ?thesis
      by (simp add: split_beta Let_def playerEnemy_after_defeat)
  next
    case (Suc j)
    with Cons.prems es have "j < length es'" "length es' = length bs"
      "defeat_or_same (bs ! j) (es' ! j)" by simp_all
    then have "defeat_or_same (bs ! j) (snd (playerEnemies px (fst (playerEnemy px p a)) es') ! j)"
      by (rule Cons.IH)
    with Suc es show ?thesis by (simp add: split_beta Let_def)
  qed
qed

lemma checkCollisions_enemies_length:
  "length (fst (snd (checkCollisions px ps es cs))) = length es"
  by (induction ps arbitrary: es cs) (auto simp: split_beta Let_def playerEnemies_length)

lemma checkCollisions_nth_enemy:
  assumes "i < length es'" and "length es' = length es" and "defeat_or_same (es ! i) (es' ! i)"
  shows "defeat_or_same (es ! i) (fst (snd (checkCollisions px ps es' cs)) ! i)"
  using assms
proof (induction ps arbitrary: es' cs)
  case Nil
  then show ?case by simp
next
  case (Cons a ps)
  obtain pid p where a: "a = (pid, p)" by (cases a)
  let ?es1 = "snd (playerEnemies px p es')"
  from Cons.prems have "defeat_or_same (es ! i) (?es1 ! i)" by (rule playerEnemies_nth)
  moreover from Cons.prems have "i < length ?es1" "length ?es1 = length es"
    by (simp_all add: playerEnemies_length)
  ultimately have "defeat_or_same (es ! i)
      (fst (snd (checkCollisions px ps ?es1 (map (pickup (fst (playerEnemies px p es'))) cs))) ! i)"
    by (intro Cons.IH)
  then show ?case by (simp add: a split_beta Let_def)
qed

lemma tick_enemy:
  assumes "i < length (enemies st)"
  shows "defeat_or_same (updateEnemy (TICK_RATE / 1000) (enemies st ! i))
           (enemies (tick px now st) ! i)"
proof -
  let ?es = "updateEnemies (TICK_RATE / 1000) (enemies st)"
  from assms have "i < length ?es" "length ?es = length ?es" "defeat_or_same (?es ! i) (?es ! i)"
    by (simp_all add: updateEnemies_def defeat_or_same_refl)
  then have "defeat_or_same (?es ! i) (fst (snd (checkCollisions px
       (map (\<lambda>(pid, p). (pid, updatePlayer (TICK_RATE / 1000) (world_map st) p))
          (filter (\<lambda>(pid, p). \<not> timedOut (heartbeats st) now pid) (players st)))
       ?es (collectibles st))) ! i)"
    by (rule checkCollisions_nth_enemy)
  with assms show ?thesis by (simp add: enemies_tick updateEnemies_def)
qed

lemma respawn_in_tick:
  assumes "i < length (enemies st)" and "defeated (enemies st ! i)"
    and "respawnTimer (enemies st ! i) - TICK_RATE / 1000 \<le> 0"
  shows "enemy_x (enemies (tick px now st) ! i) = originalX (enemies st ! i)"
    and "enemy_y (enemies (tick px now st) ! i) = originalY (enemies st ! i)"
    and "\<not> defeated (enemies (tick px now st) ! i) \<or>
         respawnTimer (enemies (tick px now st) ! i) = 5"
proof -
  let ?e = "updateEnemy (TICK_RATE / 1000) (enemies st ! i)"
  from assms(2,3) have e: "\<not> defeated ?e" "enemy_x ?e = originalX (enemies st ! i)"
    "enemy_y ?e = originalY (enemies st ! i)" by (simp_all add: respawn_now)
  from tick_enemy [OF assms(1), of px now]
  have "enemies (tick px now st) ! i = ?e \<or>
        enemies (tick px now st) ! i = ?e\<lparr>defeated := True, respawnTimer := 5\<rparr>"
    by (auto simp: defeat_or_same_def)
  with e show "enemy_x (enemies (tick px now st) ! i) = originalX (enemies st ! i)"
    "enemy_y (enemies (tick px now st) ! i) = originalY (enemies st ! i)"
    "\<not> defeated (enemies (tick px now st) ! i) \<or>
         respawnTimer (enemies (tick px now st) ! i) = 5"
    by auto
qed

text \<open>
  Claim C7. A defeated enemy whose respawn timer elapses during a tick (the timer less
  the tick's \<open>dt\<close> is zero or below) is back at \<open>(originalX, originalY)\<close> with
  \<open>defeated = false\<close> after \<^verbatim>\<open>updateEnemies\<close>; until then it only counts down; and for
  every positive \<open>dt\<close> the timer does elapse after finitely many updates. At the end
  of the whole tick the enemy stands at its original position, and if it is defeated
  there it has been defeated anew in the same tick's interaction resolution (its
  timer is 5 again). The client's own \<^verbatim>\<open>updateEnemies\<close>, which counts up to 5,
  restores the same position.
\<close>

theorem respawn_fidelity:
  "(i < length es \<and> defeated (es ! i) \<and> respawnTimer (es ! i) - dt \<le> 0 \<longrightarrow>
      \<not> defeated (updateEnemies dt es ! i) \<and>
      enemy_x (updateEnemies dt es ! i) = originalX (es ! i) \<and>
      enemy_y (updateEnemies dt es ! i) = originalY (es ! i)) \<and>
   (i < length es \<and> defeated (es ! i) \<and> 0 < respawnTimer (es ! i) - dt \<longrightarrow>
      updateEnemies dt es ! i = (es ! i)\<lparr>respawnTimer := respawnTimer (es ! i) - dt\<rparr>) \<and>
   (k < length (enemies st) \<and> defeated (enemies st ! k) \<and>
      respawnTimer (enemies st ! k) - TICK_RATE / 1000 \<le> 0 \<longrightarrow>
      enemy_x (enemies (tick pixelScan now st) ! k) = originalX (enemies st ! k) \<and>
      enemy_y (enemies (tick pixelScan now st) ! k) = originalY (enemies st ! k) \<and>
      (\<not> defeated (enemies (tick pixelScan now st) ! k) \<or>
       respawnTimer (enemies (tick pixelScan now st) ! k) = 5)) \<and>
   (defeated e \<and> 0 < dt \<longrightarrow>
      (\<exists>n. \<not> defeated ((updateEnemy dt ^^ n) e) \<and>
           enemy_x ((updateEnemy dt ^^ n) e) = originalX e \<and>
           enemy_y ((updateEnemy dt ^^ n) e) = originalY e)) \<and>
   (defeated e \<and> 5 \<le> respawnTimer e + dt \<longrightarrow>
      \<not> defeated (updateEnemyClient dt rnd e) \<and>
      enemy_x (updateEnemyClient dt rnd e) = originalX e \<and>
      enemy_y (updateEnemyClient dt rnd e) = originalY e)"
proof (intro conjI impI)
  assume a: "i < length es \<and> defeated (es ! i) \<and> respawnTimer (es ! i) - dt \<le> 0"
  then show "\<not> defeated (updateEnemies dt es ! i)"
    "enemy_x (updateEnemies dt es ! i) = originalX (es ! i)"
    "enemy_y (updateEnemies dt es ! i) = originalY (es ! i)"
    by (simp_all add: updateEnemies_def respawn_now)
next
  assume "i < length es \<and> defeated (es ! i) \<and> 0 < respawnTimer (es ! i) - dt"
  then show "updateEnemies dt es ! i = (es ! i)\<lparr>respawnTimer := respawnTimer (es ! i) - dt\<rparr>"
    by (simp add: updateEnemies_def respawn_waits)
next
  assume a: "k < length (enemies st) \<and> defeated (enemies st ! k) \<and>
      respawnTimer (enemies st ! k) - TICK_RATE / 1000 \<le> 0"
  then have k: "k < length (enemies st)" "defeated (enemies st ! k)"
    "respawnTimer (enemies st ! k) - TICK_RATE / 1000 \<le> 0" by simp_all
  show "enemy_x (enemies (tick pixelScan now st) ! k) = originalX (enemies st ! k)"
    "enemy_y (enemies (tick pixelScan now st) ! k) = originalY (enemies st ! k)"
    "\<not> defeated (enemies (tick pixelScan now st) ! k) \<or>
       respawnTimer (enemies (tick pixelScan now st) ! k) = 5"
    by (rule respawn_in_tick [OF k])+
next
  assume "defeated e \<and> 0 < dt"
  then show "\<exists>n. \<not> defeated ((updateEnemy dt ^^ n) e) \<and>
           enemy_x ((updateEnemy dt ^^ n) e) = originalX e \<and>
           enemy_y ((updateEnemy dt ^^ n) e) = originalY e"
    by (blast intro: respawn_eventually)
next
  assume "defeated e \<and> 5 \<le> respawnTimer e + dt"
  then show "\<not> defeated (updateEnemyClient dt rnd e)"
    "enemy_x (updateEnemyClient dt rnd e) = originalX e"
    "enemy_y (updateEnemyClient dt rnd e) = originalY e"
    by (simp_all add: respawn_client)
qed

lemma respawn_state_tick:
  "enemies (tick no_scan 0 respawn_state) ! 1 = slime\<lparr>enemy_x := 200, respawnTimer := 0\<rparr>"
  by (simp add: respawn_state_def initializeGameState_def tick_def Let_def updateEnemies_def
        updateEnemy_def beaten_slime_def slime_def addEnemy_def TICK_RATE_def)

theorem respawn_fidelity_witness:
  "\<not> defeated (updateEnemies (TICK_RATE / 1000) [slime, beaten_slime] ! 1) \<and>
   enemy_x (updateEnemies (TICK_RATE / 1000) [slime, beaten_slime] ! 1) = 200 \<and>
   enemy_y (updateEnemies (TICK_RATE / 1000) [slime, beaten_slime] ! 1) = 222 \<and>
   updateEnemies (1 / 200) [slime, beaten_slime] ! 1 = beaten_slime\<lparr>respawnTimer := 1 / 200\<rparr> \<and>
   enemy_x (enemies (tick no_scan 0 respawn_state) ! 1) = 200 \<and>
   enemy_y (enemies (tick no_scan 0 respawn_state) ! 1) = 222 \<and>
   (\<exists>n. \<not> defeated ((updateEnemy (TICK_RATE / 1000) ^^ n) beaten_slime) \<and>
        enemy_x ((updateEnemy (TICK_RATE / 1000) ^^ n) beaten_slime) = 200 \<and>
        enemy_y ((updateEnemy (TICK_RATE / 1000) ^^ n) beaten_slime) = 222) \<and>
   \<not> defeated (updateEnemyClient (1 / 60) (1 / 4) (beaten_slime\<lparr>respawnTimer := 299 / 60\<rparr>)) \<and>
   enemy_x (updateEnemyClient (1 / 60) (1 / 4) (beaten_slime\<lparr>respawnTimer := 299 / 60\<rparr>)) = 200"
  using respawn_fidelity [of 1 "[slime, beaten_slime]" "TICK_RATE / 1000" 1 respawn_state
          no_scan 0 beaten_slime "1 / 4"]
        respawn_fidelity [of 1 "[slime, beaten_slime]" "1 / 200" 1 respawn_state no_scan 0
          "beaten_slime\<lparr>respawnTimer := 299 / 60\<rparr>" "1 / 4"]
        respawn_fidelity [of 1 "[slime, beaten_slime]" "1 / 60" 1 respawn_state no_scan 0
          "beaten_slime\<lparr>respawnTimer := 299 / 60\<rparr>" "1 / 4"]
  by (simp add: respawn_state_tick)
    (simp add: respawn_state_def beaten_slime_def slime_def addEnemy_def TICK_RATE_def)

lemma half_grid_step:
  assumes "on_half_grid a" and "on_half_grid b" and "a < b"
  shows "a + 1 / 2 \<le> b"
proof -
  from assms(1) have ea: "of_int \<lfloor>2 * a\<rfloor> = 2 * a" unfolding on_half_grid_def .
  from assms(2) have eb: "of_int \<lfloor>2 * b\<rfloor> = 2 * b" unfolding on_half_grid_def .
  from assms(3) ea eb have "(of_int \<lfloor>2 * a\<rfloor> :: real) < of_int \<lfloor>2 * b\<rfloor>" by linarith
  then have "\<lfloor>2 * a\<rfloor> < \<lfloor>2 * b\<rfloor>" by (simp only: of_int_less_iff)
  then have "\<lfloor>2 * a\<rfloor> + 1 \<le> \<lfloor>2 * b\<rfloor>" by linarith
  then have "(of_int (\<lfloor>2 * a\<rfloor> + 1) :: real) \<le> of_int \<lfloor>2 * b\<rfloor>" by (simp only: of_int_le_iff)
  then have "(of_int \<lfloor>2 * a\<rfloor> :: real) + 1 \<le> of_int \<lfloor>2 * b\<rfloor>" by simp
  with ea eb show ?thesis by linarith
qed

lemma half_grid_plus: "on_half_grid a \<Longrightarrow> on_half_grid (a + 1 / 2)"
proof -
  assume a: "on_half_grid a"
  have "\<lfloor>2 * (a + 1 / 2)\<rfloor> = \<lfloor>2 * a + 1\<rfloor>" by (simp add: algebra_simps)
  also have "\<dots> = \<lfloor>2 * a\<rfloor> + 1" by simp
  finally show ?thesis using a by (simp add: on_half_grid_def)
qed

lemma half_grid_minus: "on_half_grid a \<Longrightarrow> on_half_grid (a - 1 / 2)"
proof -
  assume a: "on_half_grid a"
  have "\<lfloor>2 * (a - 1 / 2)\<rfloor> = \<lfloor>2 * a - 1\<rfloor>" by (simp add: algebra_simps)
  also have "\<dots> = \<lfloor>2 * a\<rfloor> - 1" by simp
  finally show ?thesis using a by (simp add: on_half_grid_def)
qed

lemma patrol_inv_flags:
  "patrol_inv e \<Longrightarrow> patrol_inv (e\<lparr>defeated := d, respawnTimer := r\<rparr>)"
  by (simp add: patrol_inv_def)

lemma patrol_inv_updateEnemy:
  assumes "patrol_inv e"
  shows "patrol_inv (updateEnemy (TICK_RATE / 1000) e)"
proof (cases "defeated e")
  case True
  with assms show ?thesis by (auto simp: updateEnemy_def Let_def patrol_inv_def)
next
  case False
  note nd = False
  show ?thesis
  proof (cases "enemy_facingRight e")
    case True
    with assms have lt: "enemy_x e < rightBound e" by (auto simp: patrol_inv_def)
    from assms have "on_half_grid (enemy_x e)" "on_half_grid (rightBound e)"
      by (simp_all add: patrol_inv_def)
    from half_grid_step [OF this lt] half_grid_plus [OF this(1)]
    have "enemy_x e + 1 / 2 \<le> rightBound e" "on_half_grid (enemy_x e + 1 / 2)" .
    with assms nd True show ?thesis
      by (auto simp: updateEnemy_def Let_def patrol_inv_def TICK_RATE_def)
  next
    case False
    with assms have lt: "leftBound e < enemy_x e" by (auto simp: patrol_inv_def)
    from assms have "on_half_grid (leftBound e)" "on_half_grid (enemy_x e)"
      by (simp_all add: patrol_inv_def)
    from half_grid_step [OF this lt] half_grid_minus [OF this(2)]
    have "leftBound e + 1 / 2 \<le> enemy_x e" "on_half_grid (enemy_x e - 1 / 2)" .
    with assms nd False show ?thesis
      by (auto simp: updateEnemy_def Let_def patrol_inv_def TICK_RATE_def)
  qed
qed


lemma patrol_inv_playerEnemy:
  "patrol_inv e \<Longrightarrow> patrol_inv (snd (playerEnemy px p e))"
  by (simp add: playerEnemy_def patrol_inv_flags)

lemma patrol_inv_playerEnemies:
  "list_all patrol_inv es \<Longrightarrow> list_all patrol_inv (snd (playerEnemies px p es))"
proof (induction es arbitrary: p)
  case Nil
  then show ?case by simp
next
  case (Cons e es)
  from Cons.prems have "patrol_inv (snd (playerEnemy px p e))"
    by (simp add: patrol_inv_playerEnemy)
  moreover from Cons.prems
  have "list_all patrol_inv (snd (playerEnemies px (fst (playerEnemy px p e)) es))"
    by (simp add: Cons.IH)
  ultimately show ?case by (simp add: split_beta Let_def)
qed

lemma patrol_inv_checkCollisions:
  "list_all patrol_inv es \<Longrightarrow> list_all patrol_inv (fst (snd (checkCollisions px ps es cs)))"
proof (induction ps arbitrary: es cs)
  case Nil
  then show ?case by simp
next
  case (Cons a ps)
  obtain pid p where a: "a = (pid, p)" by (cases a)
  from Cons.prems have "list_all patrol_inv (snd (playerEnemies px p es))"
    by (rule patrol_inv_playerEnemies)
  then have "list_all patrol_inv (fst (snd (checkCollisions px ps (snd (playerEnemies px p es))
      (map (pickup (fst (playerEnemies px p es))) cs))))"
    by (rule Cons.IH)
  then show ?case by (simp add: a split_beta Let_def)
qed

lemma patrol_inv_swordHit: "patrol_inv e \<Longrightarrow> patrol_inv (swordHit sx sy sw sh e)"
  by (simp add: swordHit_def patrol_inv_flags)

lemma patrol_inv_serverStep:
  assumes "list_all patrol_inv (enemies st)"
  shows "list_all patrol_inv (enemies (serverStep px st ev))"
proof (cases ev)
  case (Connection now pid)
  with assms show ?thesis by (simp add: onConnection_def)
next
  case (Message now pid msg)
  show ?thesis
  proof (cases msg)
    case (SwordAttack attacker sx sy sw sh fr)
    with assms Message show ?thesis
      by (auto simp: handleSwordAttack_def list_all_iff patrol_inv_swordHit split: option.splits)
  next
    case (CollectCoin i)
    with assms Message show ?thesis by (simp add: collectCoin_def)
  qed (use assms Message in \<open>auto simp: removePlayer_def split: option.splits\<close>)
next
  case (Close pid)
  with assms show ?thesis by (simp add: removePlayer_def)
next
  case (Tick now)
  from assms have "list_all patrol_inv (updateEnemies (TICK_RATE / 1000) (enemies st))"
    by (simp add: updateEnemies_def list_all_iff patrol_inv_updateEnemy)
  then show ?thesis unfolding Tick serverStep.simps enemies_tick
    by (rule patrol_inv_checkCollisions)
next
  case (HeartbeatCheck now)
  with assms show ?thesis by (simp add: heartbeatCheck_def)
qed

lemma patrol_inv_run:
  "list_all patrol_inv (enemies st) \<Longrightarrow> list_all patrol_inv (enemies (foldl (serverStep px) st evs))"
  by (induction evs arbitrary: st) (simp_all add: patrol_inv_serverStep)

lemma patrol_inv_initial: "list_all patrol_inv (enemies initializeGameState)"
  by (simp add: initializeGameState_def createEnemies_def addEnemy_def patrol_inv_def
        on_half_grid_def)

lemma patrol_step_right:
  assumes "patrol_inv e" and "\<not> defeated e" and "enemy_facingRight e"
  shows "enemy_x (updateEnemy (TICK_RATE / 1000) e) = enemy_x e + 1 / 2"
    and "enemy_x (updateEnemy (TICK_RATE / 1000) e) \<le> rightBound e"
    and "enemy_facingRight (updateEnemy (TICK_RATE / 1000) e) \<longleftrightarrow>
           enemy_x (updateEnemy (TICK_RATE / 1000) e) < rightBound e"
proof -
  from assms have lt: "enemy_x e < rightBound e" by (auto simp: patrol_inv_def)
  from assms have "on_half_grid (enemy_x e)" "on_half_grid (rightBound e)"
    by (simp_all add: patrol_inv_def)
  from half_grid_step [OF this lt] have le: "enemy_x e + 1 / 2 \<le> rightBound e" .
  from assms have v: "enemy_vel_x e = 50" by (simp add: patrol_inv_def)
  from assms(2,3) v show "enemy_x (updateEnemy (TICK_RATE / 1000) e) = enemy_x e + 1 / 2"
    by (simp add: updateEnemy_def Let_def TICK_RATE_def)
  with le show "enemy_x (updateEnemy (TICK_RATE / 1000) e) \<le> rightBound e" by simp
  from assms(2,3) v show "enemy_facingRight (updateEnemy (TICK_RATE / 1000) e) \<longleftrightarrow>
           enemy_x (updateEnemy (TICK_RATE / 1000) e) < rightBound e"
    by (auto simp: updateEnemy_def Let_def TICK_RATE_def)
qed

lemma patrol_step_left:
  assumes "patrol_inv e" and "\<not> defeated e" and "\<not> enemy_facingRight e"
  shows "enemy_x (updateEnemy (TICK_RATE / 1000) e) = enemy_x e - 1 / 2"
    and "leftBound e \<le> enemy_x (updateEnemy (TICK_RATE / 1000) e)"
    and "enemy_facingRight (updateEnemy (TICK_RATE / 1000) e) \<longleftrightarrow>
           enemy_x (updateEnemy (TICK_RATE / 1000) e) \<le> leftBound e"
proof -
  from assms have lt: "leftBound e < enemy_x e" by (auto simp: patrol_inv_def)
  from assms have "on_half_grid (leftBound e)" "on_half_grid (enemy_x e)"
    by (simp_all add: patrol_inv_def)
  from half_grid_step [OF this lt] have le: "leftBound e + 1 / 2 \<le> enemy_x e" .
  from assms have v: "enemy_vel_x e = 50" by (simp add: patrol_inv_def)
  from assms(2,3) v show "enemy_x (updateEnemy (TICK_RATE / 1000) e) = enemy_x e - 1 / 2"
    by (simp add: updateEnemy_def Let_def TICK_RATE_def)
  with le show "leftBound e \<le> enemy_x (updateEnemy (TICK_RATE / 1000) e)" by simp
  from assms(2,3) v show "enemy_facingRight (updateEnemy (TICK_RATE / 1000) e) \<longleftrightarrow>
           enemy_x (updateEnemy (TICK_RATE / 1000) e) \<le> leftBound e"
    by (auto simp: updateEnemy_def Let_def TICK_RATE_def)
qed

lemma reachable_patrol_inv:
  assumes "e \<in> set (enemies (serverRun pixelScan evs))"
  shows "patrol_inv e"
proof -
  have "list_all patrol_inv (enemies (serverRun pixelScan evs))"
    unfolding serverRun_def using patrol_inv_initial by (rule patrol_inv_run)
  with assms show ?thesis by (simp add: list_all_iff)
qed

lemma enemies_after_hundred_ticks:
  "enemies (serverRun no_scan hundred_ticks) =
     [slime\<lparr>enemy_x := 250, enemy_facingRight := False, enemy_animationFrame := 1\<rparr>,
      (addEnemy 400 (238 - 16) ''robot'' 380 480)\<lparr>enemy_x := 450, enemy_animationFrame := 1\<rparr>,
      (addEnemy 650 (148 - 16) ''bat'' 600 700)
        \<lparr>enemy_x := 700, enemy_facingRight := False, enemy_animationFrame := 1\<rparr>]"
  by (simp add: hundred_ticks_def serverRun_def initializeGameState_def tick_def Let_def
        updateEnemies_def updateEnemy_def createEnemies_def slime_def addEnemy_def
        TICK_RATE_def numeral_eq_Suc)

text \<open>
  Claim C3, as the server has it. Every enemy of the server's world, after any
  sequence of connections, messages and ticks, has its x-coordinate within
  \<open>[leftBound, rightBound]\<close>. A patrolling enemy covers half a unit per tick and its
  start and bounds are whole numbers, so it arrives exactly at a bound and is never
  carried past it, and in the tick in which it arrives its facing is reversed.
  \<open>vel_x\<close> stays the speed 50; the direction of travel is carried by \<open>facingRight\<close>
  alone.
\<close>

theorem enemy_containment:
  assumes "e \<in> set (enemies (serverRun pixelScan evs))"
  shows "leftBound e \<le> enemy_x e \<and> enemy_x e \<le> rightBound e \<and>
         (enemy_x e = rightBound e \<longrightarrow> \<not> enemy_facingRight e) \<and>
         (enemy_x e = leftBound e \<longrightarrow> enemy_facingRight e) \<and>
         enemy_vel_x e = 50 \<and>
         (\<not> defeated e \<and> enemy_facingRight e \<longrightarrow>
            enemy_x (updateEnemy (TICK_RATE / 1000) e) = enemy_x e + 1 / 2 \<and>
            enemy_x (updateEnemy (TICK_RATE / 1000) e) \<le> rightBound e \<and>
            (enemy_facingRight (updateEnemy (TICK_RATE / 1000) e) \<longleftrightarrow>
               enemy_x (updateEnemy (TICK_RATE / 1000) e) < rightBound e)) \<and>
         (\<not> defeated e \<and> \<not> enemy_facingRight e \<longrightarrow>
            enemy_x (updateEnemy (TICK_RATE / 1000) e) = enemy_x e - 1 / 2 \<and>
            leftBound e \<le> enemy_x (updateEnemy (TICK_RATE / 1000) e) \<and>
            (enemy_facingRight (updateEnemy (TICK_RATE / 1000) e) \<longleftrightarrow>
               enemy_x (updateEnemy (TICK_RATE / 1000) e) \<le> leftBound e))"
proof -
  from assms have inv: "patrol_inv e" by (rule reachable_patrol_inv)
  then have "leftBound e \<le> enemy_x e \<and> enemy_x e \<le> rightBound e \<and>
         (enemy_x e = rightBound e \<longrightarrow> \<not> enemy_facingRight e) \<and>
         (enemy_x e = leftBound e \<longrightarrow> enemy_facingRight e) \<and>
         enemy_vel_x e = 50"
    by (simp add: patrol_inv_def)
  moreover from patrol_step_right [OF inv]
  have "\<not> defeated e \<and> enemy_facingRight e \<longrightarrow>
            enemy_x (updateEnemy (TICK_RATE / 1000) e) = enemy_x e + 1 / 2 \<and>
            enemy_x (updateEnemy (TICK_RATE / 1000) e) \<le> rightBound e \<and>
            (enemy_facingRight (updateEnemy (TICK_RATE / 1000) e) \<longleftrightarrow>
               enemy_x (updateEnemy (TICK_RATE / 1000) e) < rightBound e)"
    by blast
  moreover from patrol_step_left [OF inv]
  have "\<not> defeated e \<and> \<not> enemy_facingRight e \<longrightarrow>
            enemy_x (updateEnemy (TICK_RATE / 1000) e) = enemy_x e - 1 / 2 \<and>
            leftBound e \<le> enemy_x (updateEnemy (TICK_RATE / 1000) e) \<and>
            (enemy_facingRight (updateEnemy (TICK_RATE / 1000) e) \<longleftrightarrow>
               enemy_x (updateEnemy (TICK_RATE / 1000) e) \<le> leftBound e)"
    by blast
  ultimately show ?thesis by blast
qed

theorem enemy_containment_witness:
  "enemy_x (enemies (serverRun no_scan hundred_ticks) ! 0) = 250 \<and>
   rightBound (enemies (serverRun no_scan hundred_ticks) ! 0) = 250 \<and>
   \<not> enemy_facingRight (enemies (serverRun no_scan hundred_ticks) ! 0) \<and>
   enemy_vel_x (enemies (serverRun no_scan hundred_ticks) ! 0) = 50 \<and>
   enemy_x (updateEnemy (TICK_RATE / 1000) (enemies (serverRun no_scan hundred_ticks) ! 0))
     = 499 / 2 \<and>
   enemy_x (updateEnemy (TICK_RATE / 1000) (enemies (serverRun no_scan hundred_ticks) ! 1))
     = 901 / 2 \<and>
   enemy_facingRight
     (updateEnemy (TICK_RATE / 1000) (enemies (serverRun no_scan hundred_ticks) ! 1))"
  using enemy_containment [of "enemies (serverRun no_scan hundred_ticks) ! 0" no_scan hundred_ticks]
        enemy_containment [of "enemies (serverRun no_scan hundred_ticks) ! 1" no_scan hundred_ticks]
  by (simp add: enemies_after_hundred_ticks slime_def addEnemy_def)

text \<open>
  The claim as stated fails on the server in one point: the enemy that reaches its
  right bound turns, but the sign of its \<open>vel_x\<close> is not reversed.
\<close>

theorem enemy_turn_counterexample:
  "enemy_x (updateEnemy (TICK_RATE / 1000) (slime\<lparr>enemy_x := 499 / 2\<rparr>)) = rightBound slime \<and>
   \<not> enemy_facingRight (updateEnemy (TICK_RATE / 1000) (slime\<lparr>enemy_x := 499 / 2\<rparr>)) \<and>
   enemy_vel_x (slime\<lparr>enemy_x := 499 / 2\<rparr>) = 50 \<and>
   enemy_vel_x (updateEnemy (TICK_RATE / 1000) (slime\<lparr>enemy_x := 499 / 2\<rparr>)) = 50"
  by (simp add: updateEnemy_def Let_def slime_def addEnemy_def TICK_RATE_def)

subsection \<open>Stomping\<close>

text \<open>The loop body on a pair that meets the conditions of a stomp.\<close>

lemma stomp_pair:
  assumes "\<not> defeated e" and "vel_y p > 0"
    and "pos_y p + height p - 2 \<le> enemy_y e" and "enemy_y e \<le> pos_y p + height p"
    and "(enemy_x e + enemy_width e) - pos_x p > 4"
    and "(pos_x p + width p) - enemy_x e > 4"
  shows "playerEnemy pixelScan p e =
           (p\<lparr>vel_y := jumpSpeed * 0.7\<rparr>, e\<lparr>defeated := True, respawnTimer := 5\<rparr>)"
proof -
  from assms have "landingOnTop p e" by (simp add: landingOnTop_def Let_def)
  with assms(1) show ?thesis by (simp add: playerEnemy_def)
qed

text \<open>
  The run of one player through the enemy array, and of the resolution through the
  players, cut at an index.
\<close>

lemma playerEnemies_append:
  "playerEnemies px p (xs @ ys) =
     (fst (playerEnemies px (fst (playerEnemies px p xs)) ys),
      snd (playerEnemies px p xs) @ snd (playerEnemies px (fst (playerEnemies px p xs)) ys))"
  by (induction xs arbitrary: p) (simp_all add: split_beta Let_def)

lemma playerEnemies_split:
  assumes "i < length es"
  shows "playerEnemies px p es =
     (fst (playerEnemies px (fst (playerEnemy px (playerMeeting px p es i) (es ! i)))
             (drop (Suc i) es)),
      snd (playerEnemies px p (take i es)) @
      snd (playerEnemy px (playerMeeting px p es i) (es ! i)) #
      snd (playerEnemies px (fst (playerEnemy px (playerMeeting px p es i) (es ! i)))
             (drop (Suc i) es)))"
proof -
  from assms have "es = take i es @ es ! i # drop (Suc i) es" by (simp add: id_take_nth_drop)
  then have "playerEnemies px p es = playerEnemies px p (take i es @ es ! i # drop (Suc i) es)"
    by simp
  then show ?thesis
    unfolding playerEnemies_append playerMeeting_def by (simp add: split_beta Let_def)
qed

lemma playerEnemies_nth_pair:
  assumes "i < length es"
  shows "snd (playerEnemies px p es) ! i = snd (playerEnemy px (playerMeeting px p es i) (es ! i))"
proof -
  have "length (snd (playerEnemies px p (take i es))) = i"
    using assms by (simp add: playerEnemies_length)
  then show ?thesis
    by (subst playerEnemies_split [OF assms]) (simp add: nth_append)
qed

lemma playerMeeting_Suc:
  assumes "i < length es"
  shows "playerMeeting px p es (Suc i) = fst (playerEnemy px (playerMeeting px p es i) (es ! i))"
proof -
  from assms have "take (Suc i) es = take i es @ [es ! i]" by (simp add: take_Suc_conv_app_nth)
  then show ?thesis
    unfolding playerMeeting_def by (simp add: playerEnemies_append split_beta Let_def)
qed

text \<open>
  A player that is not falling cannot stomp: each later enemy leaves it alone or hits
  it, and a hit sets its vertical velocity to 0.
\<close>

lemma playerEnemy_rising:
  assumes "vel_y p \<le> 0"
  shows "fst (playerEnemy px p e) = p \<or> fst (playerEnemy px p e) = playerHit p"
  using assms by (simp add: playerEnemy_def landingOnTop_def Let_def)

lemma playerEnemies_rising:
  assumes "vel_y p \<le> 0"
  shows "vel_y (fst (playerEnemies px p es)) = vel_y p \<or> vel_y (fst (playerEnemies px p es)) = 0"
  using assms
proof (induction es arbitrary: p)
  case Nil
  then show ?case by simp
next
  case (Cons e es)
  let ?p1 = "fst (playerEnemy px p e)"
  from playerEnemy_rising [OF Cons.prems, of px e]
  have v1: "vel_y ?p1 = vel_y p \<or> vel_y ?p1 = 0" by (auto simp: playerHit_def)
  with Cons.prems have "vel_y ?p1 \<le> 0" by auto
  then have "vel_y (fst (playerEnemies px ?p1 es)) = vel_y ?p1 \<or>
      vel_y (fst (playerEnemies px ?p1 es)) = 0" by (rule Cons.IH)
  with v1 show ?case by (auto simp: split_beta Let_def)
qed

text \<open>A defeated enemy is skipped for the rest of the resolution.\<close>

lemma playerEnemy_defeated: "defeated e \<Longrightarrow> snd (playerEnemy px p e) = e"
  by (simp add: playerEnemy_def)

lemma playerEnemies_keeps_defeated:
  "i < length es \<Longrightarrow> defeated (es ! i) \<Longrightarrow> snd (playerEnemies px p es) ! i = es ! i"
  by (simp add: playerEnemies_nth_pair playerEnemy_defeated)

lemma checkCollisions_keeps_defeated:
  "i < length es \<Longrightarrow> defeated (es ! i) \<Longrightarrow> fst (snd (checkCollisions px ps es cs)) ! i = es ! i"
proof (induction ps arbitrary: es cs)
  case Nil
  then show ?case by simp
next
  case (Cons a ps)
  obtain pid p where a: "a = (pid, p)" by (cases a)
  let ?es1 = "snd (playerEnemies px p es)"
  from Cons.prems have same: "?es1 ! i = es ! i" by (rule playerEnemies_keeps_defeated)
  with Cons.prems have "i < length ?es1" "defeated (?es1 ! i)"
    by (simp_all add: playerEnemies_length)
  then have "fst (snd (checkCollisions px ps ?es1
      (map (pickup (fst (playerEnemies px p es))) cs))) ! i = ?es1 ! i"
    by (rule Cons.IH)
  with same show ?case by (simp add: a split_beta Let_def)
qed

lemma checkCollisions_append:
  "checkCollisions px (ps1 @ ps2) es cs =
     (fst (checkCollisions px ps1 es cs) @
        fst (checkCollisions px ps2 (fst (snd (checkCollisions px ps1 es cs)))
               (snd (snd (checkCollisions px ps1 es cs)))),
      snd (checkCollisions px ps2 (fst (snd (checkCollisions px ps1 es cs)))
               (snd (snd (checkCollisions px ps1 es cs)))))"
proof (induction ps1 arbitrary: es cs)
  case Nil
  then show ?case by simp
next
  case (Cons a ps1)
  obtain pid p where a: "a = (pid, p)" by (cases a)
  show ?case by (simp add: a Cons.IH split_beta Let_def)
qed

lemma checkCollisions_players_length:
  "length (fst (checkCollisions px ps es cs)) = length ps"
  by (induction ps arbitrary: es cs) (auto simp: split_beta Let_def)

lemma checkCollisions_split:
  assumes "a < length ps"
  shows "fst (checkCollisions px ps es cs) ! a =
           (fst (ps ! a), fst (playerEnemies px (snd (ps ! a)) (enemiesFoundBy px ps es cs a)))"
    and "fst (snd (checkCollisions px ps es cs)) =
           fst (snd (checkCollisions px (drop (Suc a) ps)
             (snd (playerEnemies px (snd (ps ! a)) (enemiesFoundBy px ps es cs a)))
             (map (pickup (fst (playerEnemies px (snd (ps ! a)) (enemiesFoundBy px ps es cs a))))
                (snd (snd (checkCollisions px (take a ps) es cs))))))"
proof -
  from assms have ps: "ps = take a ps @ ps ! a # drop (Suc a) ps" by (simp add: id_take_nth_drop)
  have len: "length (fst (checkCollisions px (take a ps) es cs)) = a"
    using assms by (simp add: checkCollisions_players_length)
  have eq: "checkCollisions px ps es cs =
      checkCollisions px (take a ps @ ps ! a # drop (Suc a) ps) es cs"
    using ps by simp
  show "fst (checkCollisions px ps es cs) ! a =
           (fst (ps ! a), fst (playerEnemies px (snd (ps ! a)) (enemiesFoundBy px ps es cs a)))"
    unfolding eq checkCollisions_append enemiesFoundBy_def
    by (cases "ps ! a") (simp add: split_beta Let_def nth_append len)
  show "fst (snd (checkCollisions px ps es cs)) =
           fst (snd (checkCollisions px (drop (Suc a) ps)
             (snd (playerEnemies px (snd (ps ! a)) (enemiesFoundBy px ps es cs a)))
             (map (pickup (fst (playerEnemies px (snd (ps ! a)) (enemiesFoundBy px ps es cs a))))
                (snd (snd (checkCollisions px (take a ps) es cs))))))"
    unfolding eq checkCollisions_append enemiesFoundBy_def
    by (cases "ps ! a") (simp add: split_beta Let_def)
qed

lemma enemiesFoundBy_first: "enemiesFoundBy px ps es cs 0 = es"
  by (simp add: enemiesFoundBy_def)

lemma playerMeeting_first: "playerMeeting px p es 0 = p"
  by (simp add: playerMeeting_def)

lemma enemiesFoundBy_length: "length (enemiesFoundBy px ps es cs a) = length es"
  by (simp add: enemiesFoundBy_def checkCollisions_enemies_length)

text \<open>
  Claim C4, as the code has it. Let \<^verbatim>\<open>checkCollisions\<close> run on any players, enemies
  and collectibles, and take any player (index \<open>a\<close>) and any enemy (index \<open>i\<close>). If,
  when the resolution comes to this pair, the enemy is not defeated and the player is
  falling (\<open>vel_y > 0\<close>), with its feet within 2 pixels of the enemy's top and a
  horizontal overlap of more than 4 pixels on both sides, then the pair is resolved
  as a stomp: the enemy becomes defeated and its respawn timer becomes 5, and so it
  is found in the enemy array when the resolution ends; the player's vertical
  velocity becomes \<open>jumpSpeed \<times> 0.7\<close> and the player goes on to the next enemy with
  it. The player leaves the resolution under its own id with that velocity, or with
  0 when an enemy later in the array has hit it.
\<close>

theorem stomp_defeats_and_bounces:
  assumes "a < length ps" and "i < length es"
    and "e = enemiesFoundBy pixelScan ps es cs a ! i"
    and "p = playerMeeting pixelScan (snd (ps ! a)) (enemiesFoundBy pixelScan ps es cs a) i"
    and "\<not> defeated e" and "vel_y p > 0"
    and "pos_y p + height p - 2 \<le> enemy_y e" and "enemy_y e \<le> pos_y p + height p"
    and "(enemy_x e + enemy_width e) - pos_x p > 4"
    and "(pos_x p + width p) - enemy_x e > 4"
  shows "playerEnemy pixelScan p e =
           (p\<lparr>vel_y := jumpSpeed * 0.7\<rparr>, e\<lparr>defeated := True, respawnTimer := 5\<rparr>) \<and>
         playerMeeting pixelScan (snd (ps ! a)) (enemiesFoundBy pixelScan ps es cs a) (Suc i)
           = p\<lparr>vel_y := jumpSpeed * 0.7\<rparr> \<and>
         fst (snd (checkCollisions pixelScan ps es cs)) ! i
           = e\<lparr>defeated := True, respawnTimer := 5\<rparr> \<and>
         defeated (fst (snd (checkCollisions pixelScan ps es cs)) ! i) \<and>
         respawnTimer (fst (snd (checkCollisions pixelScan ps es cs)) ! i) = 5 \<and>
         fst (fst (checkCollisions pixelScan ps es cs) ! a) = fst (ps ! a) \<and>
         (vel_y (snd (fst (checkCollisions pixelScan ps es cs) ! a)) = jumpSpeed * 0.7 \<or>
          vel_y (snd (fst (checkCollisions pixelScan ps es cs) ! a)) = 0)"
proof -
  let ?es = "enemiesFoundBy pixelScan ps es cs a"
  let ?q = "snd (ps ! a)"
  let ?p' = "p\<lparr>vel_y := jumpSpeed * 0.7\<rparr>"
  let ?e' = "e\<lparr>defeated := True, respawnTimer := 5\<rparr>"
  from assms(2) have i: "i < length ?es" by (simp add: enemiesFoundBy_length)
  from assms(5-10) have pair: "playerEnemy pixelScan p e = (?p', ?e')" by (rule stomp_pair)
  from playerMeeting_Suc [OF i, of pixelScan ?q] pair assms(3,4)
  have next_p: "playerMeeting pixelScan ?q ?es (Suc i) = ?p'" by simp
  from playerEnemies_nth_pair [OF i, of pixelScan ?q] pair assms(3,4)
  have after: "snd (playerEnemies pixelScan ?q ?es) ! i = ?e'" by simp
  let ?es1 = "snd (playerEnemies pixelScan ?q ?es)"
  from i have i1: "i < length ?es1" by (simp add: playerEnemies_length)
  from after have d1: "defeated (?es1 ! i)" by simp
  have final: "fst (snd (checkCollisions pixelScan ps es cs)) ! i = ?e'"
    by (subst checkCollisions_split(2) [OF assms(1)])
      (simp add: checkCollisions_keeps_defeated [OF i1 d1] after)
  have "fst (playerEnemies pixelScan ?q ?es) =
      fst (playerEnemies pixelScan ?p' (drop (Suc i) ?es))"
    by (subst playerEnemies_split [OF i]) (simp add: pair assms(3,4) [symmetric])
  moreover have "vel_y ?p' \<le> 0" by (simp add: jumpSpeed_def)
  then have "vel_y (fst (playerEnemies pixelScan ?p' (drop (Suc i) ?es))) = vel_y ?p' \<or>
      vel_y (fst (playerEnemies pixelScan ?p' (drop (Suc i) ?es))) = 0"
    by (rule playerEnemies_rising)
  ultimately have vel: "vel_y (fst (playerEnemies pixelScan ?q ?es)) = jumpSpeed * 0.7 \<or>
      vel_y (fst (playerEnemies pixelScan ?q ?es)) = 0" by simp
  from checkCollisions_split(1) [OF assms(1), of pixelScan es cs]
  have pl: "fst (checkCollisions pixelScan ps es cs) ! a =
      (fst (ps ! a), fst (playerEnemies pixelScan ?q ?es))" .
  show ?thesis using pair next_p final vel by (simp add: pl)
qed

theorem stomp_defeats_and_bounces_witness:
  "enemiesFoundBy no_scan two_players createEnemies createCollectibles 1 ! 1 = createEnemies ! 1 \<and>
   playerMeeting no_scan (snd (two_players ! 1))
     (enemiesFoundBy no_scan two_players createEnemies createCollectibles 1) 1 = robot_stomper \<and>
   playerEnemy no_scan robot_stomper (createEnemies ! 1) =
     (robot_stomper\<lparr>vel_y := - 245\<rparr>, (createEnemies ! 1)\<lparr>defeated := True, respawnTimer := 5\<rparr>) \<and>
   fst (snd (checkCollisions no_scan two_players createEnemies createCollectibles)) ! 1 =
     (addEnemy 400 222 ''robot'' 380 480)\<lparr>defeated := True, respawnTimer := 5\<rparr> \<and>
   fst (checkCollisions no_scan two_players createEnemies createCollectibles) ! 1 =
     (''2'', robot_stomper\<lparr>vel_y := - 245\<rparr>)"
proof -
  have "playerEnemies no_scan (new_player ''1'') createEnemies =
      (new_player ''1'', createEnemies)"
    by (simp add: createEnemies_def playerEnemy_def landingOnTop_def
          checkCharacterEnemyCollision_def checkRectCollision_def new_player_def
          addEnemy_def Let_def)
  then have found: "enemiesFoundBy no_scan two_players createEnemies createCollectibles 1 =
      createEnemies"
    by (simp add: enemiesFoundBy_def two_players_def)
  have meet: "playerMeeting no_scan robot_stomper createEnemies 1 = robot_stomper"
    by (simp add: playerMeeting_def createEnemies_def playerEnemy_def landingOnTop_def
          checkCharacterEnemyCollision_def checkRectCollision_def no_scan_def robot_stomper_def
          new_player_def addEnemy_def Let_def)
  have second: "snd (two_players ! 1) = robot_stomper" "fst (two_players ! 1) = ''2''"
    by (simp_all add: two_players_def)
  have robot: "createEnemies ! 1 = addEnemy 400 222 ''robot'' 380 480"
    by (simp add: createEnemies_def)
  have stomp: "playerEnemy no_scan robot_stomper (createEnemies ! 1) =
        (robot_stomper\<lparr>vel_y := - 245\<rparr>,
         (createEnemies ! 1)\<lparr>defeated := True, respawnTimer := 5\<rparr>) \<and>
      fst (snd (checkCollisions no_scan two_players createEnemies createCollectibles)) ! 1 =
        (addEnemy 400 222 ''robot'' 380 480)\<lparr>defeated := True, respawnTimer := 5\<rparr>"
    using stomp_defeats_and_bounces [of 1 two_players 1 createEnemies "createEnemies ! 1"
        no_scan createCollectibles robot_stomper]
    unfolding found second meet robot
    by (simp add: two_players_def createEnemies_def robot_stomper_def new_player_def
          addEnemy_def jumpSpeed_def)
  have bat: "playerEnemies no_scan (robot_stomper\<lparr>vel_y := - 245\<rparr>) (drop (Suc 1) createEnemies) =
      (robot_stomper\<lparr>vel_y := - 245\<rparr>, drop (Suc 1) createEnemies)"
    by (simp add: createEnemies_def playerEnemy_def landingOnTop_def
          checkCharacterEnemyCollision_def checkRectCollision_def robot_stomper_def
          new_player_def addEnemy_def Let_def)
  have "1 < length createEnemies" by (simp add: createEnemies_def)
  then have "fst (playerEnemies no_scan robot_stomper createEnemies) =
      fst (playerEnemies no_scan
        (fst (playerEnemy no_scan (playerMeeting no_scan robot_stomper createEnemies 1)
           (createEnemies ! 1)))
        (drop (Suc 1) createEnemies))"
    by (subst playerEnemies_split [of 1]) (simp_all only: fst_conv)
  with stomp bat have "fst (playerEnemies no_scan robot_stomper createEnemies) =
      robot_stomper\<lparr>vel_y := - 245\<rparr>"
    by (simp only: meet fst_conv)
  moreover have "fst (checkCollisions no_scan two_players createEnemies createCollectibles) ! 1 =
      (fst (two_players ! 1), fst (playerEnemies no_scan (snd (two_players ! 1))
         (enemiesFoundBy no_scan two_players createEnemies createCollectibles 1)))"
    by (rule checkCollisions_split(1)) (simp add: two_players_def)
  ultimately have leaves:
    "fst (checkCollisions no_scan two_players createEnemies createCollectibles) ! 1 =
      (''2'', robot_stomper\<lparr>vel_y := - 245\<rparr>)"
    by (simp only: found second)
  from stomp leaves show ?thesis by (simp only: found second meet simp_thms)
qed

text \<open>
  With an overlap of exactly 4 pixels, which the claim as stated admits, there is no
  stomp: the comparisons of the overlap test are strict. In the resolution of this
  player against the enemies of the world no enemy is defeated.
\<close>

theorem stomp_needs_more_than_4px:
  "\<not> defeated slime \<and> vel_y edge_player > 0 \<and>
   pos_y edge_player + height edge_player - 2 \<le> enemy_y slime \<and>
   enemy_y slime \<le> pos_y edge_player + height edge_player \<and>
   (enemy_x slime + enemy_width slime) - pos_x edge_player \<ge> 4 \<and>
   (pos_x edge_player + width edge_player) - enemy_x slime \<ge> 4 \<and>
   \<not> defeated (snd (playerEnemy no_scan edge_player slime)) \<and>
   respawnTimer (snd (playerEnemy no_scan edge_player slime)) = 0 \<and>
   vel_y (fst (playerEnemy no_scan edge_player slime)) = 100 \<and>
   createEnemies ! 0 = slime \<and>
   checkCollisions no_scan [(''1'', edge_player)] createEnemies [] =
     ([(''1'', edge_player)], createEnemies, [])"
  by (simp add: playerEnemy_def landingOnTop_def checkCharacterEnemyCollision_def
        checkRectCollision_def no_scan_def edge_player_def new_player_def slime_def
        createEnemies_def addEnemy_def Let_def)

subsection \<open>The collision solver on a free path\<close>

lemma samplePoint_range:
  assumes "lo \<le> hi" and "1 < n" and "0 \<le> i" and "i \<le> n - 1"
  shows "lo \<le> samplePoint lo hi n i \<and> samplePoint lo hi n i \<le> hi"
proof -
  let ?q = "(of_int i * of_int (hi - lo)) / (of_int (n - 1) :: real)"
  from assms have pos: "(0::real) < of_int (n - 1)" by simp
  from assms have "(0::real) \<le> of_int i * of_int (hi - lo)" by simp
  with pos have q0: "0 \<le> ?q" by simp
  from assms have "i * (hi - lo) \<le> (n - 1) * (hi - lo)" by (simp add: mult_right_mono)
  then have "(of_int (i * (hi - lo)) :: real) \<le> of_int ((n - 1) * (hi - lo))"
    by (simp only: of_int_le_iff)
  then have "(of_int i * of_int (hi - lo) :: real) \<le> of_int (hi - lo) * of_int (n - 1)"
    by (simp add: mult.commute)
  with pos have q1: "?q \<le> of_int (hi - lo)" by (simp add: pos_divide_le_eq)
  have "samplePoint lo hi n i = lo + \<lfloor>?q\<rfloor>"
    unfolding samplePoint_def by (rule int_add_floor [symmetric])
  moreover from q0 have "0 \<le> \<lfloor>?q\<rfloor>" by simp
  moreover from q1 have "\<lfloor>?q\<rfloor> \<le> hi - lo" by (simp add: floor_le_iff)
  ultimately show ?thesis by linarith
qed

lemma marchPos_range:
  assumes "start \<le> dest" and "1 < steps" and "0 \<le> step" and "step \<le> steps - 1"
  shows "\<lfloor>start\<rfloor> \<le> marchPos start dest steps step \<and> marchPos start dest steps step \<le> \<lfloor>dest\<rfloor>"
proof -
  let ?t = "(of_int step / of_int (steps - 1) :: real)"
  from assms have pos: "(0::real) < of_int (steps - 1)" by simp
  from assms pos have t0: "0 \<le> ?t" by simp
  from assms have "(of_int step :: real) \<le> of_int (steps - 1)" by (simp only: of_int_le_iff)
  with pos have t1: "?t \<le> 1" by (simp add: pos_divide_le_eq)
  from assms(1) have d: "0 \<le> dest - start" by simp
  from t0 d have "0 \<le> ?t * (dest - start)" by (rule mult_nonneg_nonneg)
  moreover from t1 d have "?t * (dest - start) \<le> 1 * (dest - start)" by (rule mult_right_mono)
  ultimately have "start \<le> start + ?t * (dest - start)" "start + ?t * (dest - start) \<le> dest"
    by simp_all
  then show ?thesis unfolding marchPos_def by (simp add: floor_mono)
qed

lemma center_range:
  assumes "lo \<le> hi"
  shows "lo \<le> \<lfloor>of_int lo + of_int (hi - lo) / (2 :: real)\<rfloor> \<and>
         \<lfloor>of_int lo + of_int (hi - lo) / (2 :: real)\<rfloor> \<le> hi"
proof -
  let ?q = "of_int (hi - lo) / (2 :: real)"
  from assms have q0: "0 \<le> ?q" by simp
  from assms have q1: "?q \<le> of_int (hi - lo)" by simp
  have "\<lfloor>of_int lo + ?q\<rfloor> = lo + \<lfloor>?q\<rfloor>" by (rule int_add_floor [symmetric])
  moreover from q0 have "0 \<le> \<lfloor>?q\<rfloor>" by simp
  moreover from q1 have "\<lfloor>?q\<rfloor> \<le> hi - lo" by (simp add: floor_le_iff)
  ultimately show ?thesis by linarith
qed

lemma stepCount_ge: "5 \<le> stepCount d"
  by (simp add: stepCount_def)

lemma find_product_None:
  assumes "\<And>a b. a \<in> set xs \<Longrightarrow> b \<in> set ys \<Longrightarrow> \<not> P (a, b)"
  shows "find P (List.product xs ys) = None"
  using assms by (auto simp: find_None_iff)

lemma horizontal_free_right:
  assumes vel: "vel_x ch > 0" and fwd: "pos_x ch \<le> newX" and h: "1 \<le> height ch"
    and free: "\<And>r c. \<lfloor>y\<rfloor> \<le> r \<Longrightarrow> r \<le> \<lfloor>y + height ch - 1\<rfloor> \<Longrightarrow>
                 \<lfloor>of_int \<lfloor>pos_x ch\<rfloor> + width ch\<rfloor> \<le> c \<Longrightarrow> c \<le> \<lfloor>newX + width ch\<rfloor> \<Longrightarrow>
                 \<not> probe m r c"
  shows "checkHorizontalCollision m newX y ch = (False, ch)"
proof -
  let ?top = "\<lfloor>y\<rfloor>" and ?bottom = "\<lfloor>y + height ch - 1\<rfloor>"
  let ?cp = "max 5 (?bottom - ?top + 1)"
  let ?rows = "map (samplePoint ?top ?bottom ?cp) [0..?cp - 1]"
  let ?steps = "stepCount \<bar>newX - pos_x ch\<bar>"
  let ?cols = "map (\<lambda>step. \<lfloor>of_int (marchPos (pos_x ch) newX ?steps step) + width ch\<rfloor>) [0..?steps - 1]"
  let ?centerY = "\<lfloor>of_int ?top + of_int (?bottom - ?top) / (2 :: real)\<rfloor>"
  from h have tb: "?top \<le> ?bottom" by (intro floor_mono) simp
  have rows: "?top \<le> r \<and> r \<le> ?bottom" if "r \<in> set ?rows" for r
  proof -
    from that obtain i where "0 \<le> i" "i \<le> ?cp - 1" "r = samplePoint ?top ?bottom ?cp i" by auto
    with samplePoint_range [OF tb, of ?cp i] show ?thesis by simp
  qed
  have cols: "\<lfloor>of_int \<lfloor>pos_x ch\<rfloor> + width ch\<rfloor> \<le> c \<and> c \<le> \<lfloor>newX + width ch\<rfloor>" if "c \<in> set ?cols" for c
  proof -
    from that obtain s where s: "0 \<le> s" "s \<le> ?steps - 1"
      "c = \<lfloor>of_int (marchPos (pos_x ch) newX ?steps s) + width ch\<rfloor>" by auto
    from stepCount_ge [of "\<bar>newX - pos_x ch\<bar>"] have "1 < ?steps" by simp
    from marchPos_range [OF fwd this s(1,2)]
    have "\<lfloor>pos_x ch\<rfloor> \<le> marchPos (pos_x ch) newX ?steps s"
      "marchPos (pos_x ch) newX ?steps s \<le> \<lfloor>newX\<rfloor>" by simp_all
    then have "(of_int \<lfloor>pos_x ch\<rfloor> :: real) \<le> of_int (marchPos (pos_x ch) newX ?steps s)"
      "(of_int (marchPos (pos_x ch) newX ?steps s) :: real) \<le> newX"
      by (simp_all add: le_floor_iff)
    then show ?thesis unfolding s(3) by (intro conjI floor_mono) simp_all
  qed
  have center: "?top \<le> ?centerY \<and> ?centerY \<le> ?bottom"
    using tb by (rule center_range)
  have right: "\<lfloor>of_int \<lfloor>pos_x ch\<rfloor> + width ch\<rfloor> \<le> \<lfloor>newX + width ch\<rfloor>"
    using fwd by (intro floor_mono) (simp add: order_trans [OF of_int_floor_le])
  have none: "find (\<lambda>(checkRight, checkY). probe m checkY checkRight) (List.product ?cols ?rows) = None"
    by (rule find_product_None) (use rows cols free in auto)
  have nex: "\<not> list_ex (\<lambda>checkY. probe m checkY \<lfloor>newX + width ch\<rfloor>)
      (?centerY # filter (\<lambda>checkY. checkY \<noteq> ?centerY) ?rows)"
    using rows center right free by (auto simp: list_ex_iff simp del: set_map set_upto)
  show ?thesis
    unfolding checkHorizontalCollision_def Let_def using vel none nex by simp
qed


lemma vertical_free_down:
  assumes vel: "vel_y ch > 0" and fwd: "pos_y ch \<le> newY" and w: "1 \<le> width ch"
    and free: "\<And>r c. \<lfloor>x\<rfloor> \<le> c \<Longrightarrow> c \<le> \<lfloor>x + width ch - 1\<rfloor> \<Longrightarrow>
                 \<lfloor>of_int \<lfloor>pos_y ch\<rfloor> + height ch\<rfloor> \<le> r \<Longrightarrow> r \<le> \<lfloor>newY + height ch\<rfloor> \<Longrightarrow>
                 \<not> probe m r c"
  shows "checkVerticalCollision m x newY ch = (False, ch)"
proof -
  let ?left = "\<lfloor>x\<rfloor>" and ?right = "\<lfloor>x + width ch - 1\<rfloor>"
  let ?cp = "max 5 (?right - ?left + 1)"
  let ?cols = "map (samplePoint ?left ?right ?cp) [0..?cp - 1]"
  let ?steps = "stepCount \<bar>newY - pos_y ch\<bar>"
  let ?rows = "map (\<lambda>step. \<lfloor>of_int (marchPos (pos_y ch) newY ?steps step) + height ch\<rfloor>) [0..?steps - 1]"
  let ?centerX = "\<lfloor>of_int ?left + of_int (?right - ?left) / (2 :: real)\<rfloor>"
  from w have lr: "?left \<le> ?right" by (intro floor_mono) simp
  have cols: "?left \<le> c \<and> c \<le> ?right" if "c \<in> set ?cols" for c
  proof -
    from that obtain i where "0 \<le> i" "i \<le> ?cp - 1" "c = samplePoint ?left ?right ?cp i" by auto
    with samplePoint_range [OF lr, of ?cp i] show ?thesis by simp
  qed
  have rows: "\<lfloor>of_int \<lfloor>pos_y ch\<rfloor> + height ch\<rfloor> \<le> r \<and> r \<le> \<lfloor>newY + height ch\<rfloor>" if "r \<in> set ?rows" for r
  proof -
    from that obtain s where s: "0 \<le> s" "s \<le> ?steps - 1"
      "r = \<lfloor>of_int (marchPos (pos_y ch) newY ?steps s) + height ch\<rfloor>" by auto
    from stepCount_ge [of "\<bar>newY - pos_y ch\<bar>"] have "1 < ?steps" by simp
    from marchPos_range [OF fwd this s(1,2)]
    have "\<lfloor>pos_y ch\<rfloor> \<le> marchPos (pos_y ch) newY ?steps s"
      "marchPos (pos_y ch) newY ?steps s \<le> \<lfloor>newY\<rfloor>" by simp_all
    then have "(of_int \<lfloor>pos_y ch\<rfloor> :: real) \<le> of_int (marchPos (pos_y ch) newY ?steps s)"
      "(of_int (marchPos (pos_y ch) newY ?steps s) :: real) \<le> newY"
      by (simp_all add: le_floor_iff)
    then show ?thesis unfolding s(3) by (intro conjI floor_mono) simp_all
  qed
  have center: "?left \<le> ?centerX \<and> ?centerX \<le> ?right"
    using lr by (rule center_range)
  have bottom: "\<lfloor>of_int \<lfloor>pos_y ch\<rfloor> + height ch\<rfloor> \<le> \<lfloor>newY + height ch\<rfloor>"
    using fwd by (intro floor_mono) (simp add: order_trans [OF of_int_floor_le])
  have none: "find (\<lambda>(checkBottom, checkX). probe m checkBottom checkX) (List.product ?rows ?cols) = None"
    by (rule find_product_None) (use rows cols free in auto)
  have nex: "\<not> list_ex (\<lambda>checkX. probe m \<lfloor>newY + height ch\<rfloor> checkX)
      (?centerX # filter (\<lambda>checkX. checkX \<noteq> ?centerX) ?cols)"
    using cols center bottom free by (auto simp: list_ex_iff simp del: set_map set_upto)
  show ?thesis
    unfolding checkVerticalCollision_def Let_def using vel none nex by simp
qed

lemma createMap_row:
  "createMap r = (if 0 \<le> r \<and> r < 240 then Some (\<lambda>c.
       if (r = 239 \<or> r = 238) then (if 0 \<le> c \<and> c < 1000 then (if (300 \<le> c \<and> c < 351) \<or> (500 \<le> c \<and> c < 531) then Some empty_tile else Some (if r = 239 then ground_tile else grass_tile)) else None)
       else if r = 180 \<and> 100 \<le> c \<and> c < 250 then Some platform_tile
       else if r = 150 \<and> (300 \<le> c \<and> c < 400 \<or> 600 \<le> c \<and> c < 720) then Some platform_tile
       else if r = 120 \<and> 450 \<le> c \<and> c < 530 then Some platform_tile
       else if 0 \<le> c \<and> c < 1000 then Some empty_tile else None) else None)"
  by (auto simp: createMap_def fill_cells_def createPlatform_def blank_map_def MAP_HEIGHT_def MAP_WIDTH_def Let_def fun_eq_iff)

lemma probe_createMap:
  "probe createMap r c \<longleftrightarrow>
     0 \<le> c \<and> c < 1000 \<and>
     ((r = 238 \<or> r = 239) \<and> \<not> (300 \<le> c \<and> c \<le> 350) \<and> \<not> (500 \<le> c \<and> c \<le> 530) \<or>
      r = 180 \<and> 100 \<le> c \<and> c < 250 \<or>
      r = 150 \<and> (300 \<le> c \<and> c < 400 \<or> 600 \<le> c \<and> c < 720) \<or>
      r = 120 \<and> 450 \<le> c \<and> c < 530)"
  by (auto simp: probe_def is_solid_def createMap_row MAP_HEIGHT_def MAP_WIDTH_def
        empty_tile_def ground_tile_def grass_tile_def platform_tile_def)

lemma spawn_area_free: "c < 100 \<Longrightarrow> r < 238 \<Longrightarrow> \<not> probe createMap r c"
  by (auto simp: probe_createMap)

lemma walker_input:
  "processPlayerInput walker = walker\<lparr>vel_x := 150\<rparr>"
  by (simp add: processPlayerInput_def walker_def new_player_def right_keys_def no_keys_def
        speed_def minJumpVelocity_def Let_def)

lemma move_free:
  assumes "checkHorizontalCollision m (pos_x p + vel_x p * dt) (pos_y p) p = (False, p)"
    and "checkVerticalCollision m (pos_x p + vel_x p * dt) (pos_y p + vel_y p * dt)
           (p\<lparr>pos_x := pos_x p + vel_x p * dt\<rparr>) = (False, p\<lparr>pos_x := pos_x p + vel_x p * dt\<rparr>)"
    and "\<not> pos_y p + vel_y p * dt > of_int MAP_HEIGHT"
  shows "movePlayerWithCollision m p dt =
           p\<lparr>pos_x := pos_x p + vel_x p * dt, pos_y := pos_y p + vel_y p * dt, onGround := False\<rparr>"
  using assms by (simp add: movePlayerWithCollision_def Let_def)

lemma walker_update:
  assumes "0 < dt" and "dt \<le> 1 / 10"
  shows "updatePlayer dt createMap walker =
           walker\<lparr>pos_x := 50 + 150 * dt, pos_y := 100 + 800 * dt * dt,
                  vel_x := 150, vel_y := 800 * dt\<rparr>"
proof -
  let ?p2 = "walker\<lparr>vel_x := 150, vel_y := 800 * dt\<rparr>"
  let ?newX = "pos_x ?p2 + vel_x ?p2 * dt"
  let ?newY = "pos_y ?p2 + vel_y ?p2 * dt"
  let ?p3 = "?p2\<lparr>pos_x := ?newX\<rparr>"
  have nx: "?newX = 50 + 150 * dt" and ny: "?newY = 100 + 800 * dt * dt"
    by (simp_all add: walker_def new_player_def)
  from assms have x: "?newX \<le> 65" unfolding nx by simp
  from assms have "dt * dt \<le> (1 / 10) * (1 / 10)" by (intro mult_mono) simp_all
  then have y: "?newY \<le> 108" unfolding ny by simp
  from assms have y0: "100 \<le> ?newY" unfolding ny by simp
  have hfree: "checkHorizontalCollision createMap ?newX (pos_y ?p2) ?p2 = (False, ?p2)"
  proof (rule horizontal_free_right)
    show "0 < vel_x ?p2" by simp
    show "pos_x ?p2 \<le> ?newX" using assms by simp
    show "1 \<le> height ?p2" by (simp add: walker_def new_player_def)
    fix r c :: int
    assume r: "r \<le> \<lfloor>pos_y ?p2 + height ?p2 - 1\<rfloor>" and c: "c \<le> \<lfloor>?newX + width ?p2\<rfloor>"
    from x have "\<lfloor>?newX + width ?p2\<rfloor> \<le> 81"
      by (simp add: walker_def new_player_def floor_le_iff)
    with c have "c < 100" by linarith
    moreover have "\<lfloor>pos_y ?p2 + height ?p2 - 1\<rfloor> = 123" by (simp add: walker_def new_player_def)
    with r have "r < 238" by linarith
    ultimately show "\<not> probe createMap r c" by (rule spawn_area_free)
  qed
  have vfree: "checkVerticalCollision createMap ?newX ?newY ?p3 = (False, ?p3)"
  proof (rule vertical_free_down)
    show "0 < vel_y ?p3" using assms by simp
    show "pos_y ?p3 \<le> ?newY" using assms by simp
    show "1 \<le> width ?p3" by (simp add: walker_def new_player_def)
    fix r c :: int
    assume c: "c \<le> \<lfloor>?newX + width ?p3 - 1\<rfloor>" and r: "r \<le> \<lfloor>?newY + height ?p3\<rfloor>"
    from x have "\<lfloor>?newX + width ?p3 - 1\<rfloor> \<le> 80"
      by (simp add: walker_def new_player_def floor_le_iff)
    with c have "c < 100" by linarith
    moreover from y have "\<lfloor>?newY + height ?p3\<rfloor> \<le> 132"
      by (simp add: walker_def new_player_def floor_le_iff)
    with r have "r < 238" by linarith
    ultimately show "\<not> probe createMap r c" by (rule spawn_area_free)
  qed
  from y have low: "\<not> ?newY > of_int MAP_HEIGHT" by (simp add: MAP_HEIGHT_def)
  have "updatePlayer dt createMap walker = movePlayerWithCollision createMap ?p2 dt"
    by (simp add: updatePlayer_def walker_input gravity_def Let_def)
      (simp add: walker_def new_player_def)
  also from move_free [OF hfree vfree low]
  have "\<dots> = ?p2\<lparr>pos_x := ?newX, pos_y := ?newY, onGround := False\<rparr>" .
  also have "\<dots> = walker\<lparr>pos_x := 50 + 150 * dt, pos_y := 100 + 800 * dt * dt,
                  vel_x := 150, vel_y := 800 * dt\<rparr>"
    unfolding nx ny by (simp add: walker_def new_player_def)
  finally show ?thesis .
qed

subsection \<open>The tick scenario\<close>

lemma scenario_state:
  "serverRun pixelScan [Connection 0 ''1'', Message 1 ''1'' (Input right_keys 1)] =
     initializeGameState\<lparr>players := [(''1'', walker)], heartbeats := [''1'' \<mapsto> 1]\<rparr>"
  by (simp add: serverRun_def onConnection_def initializeGameState_def walker_def)

lemma far_from_enemies:
  assumes "pos_x p + width p \<le> 150" and "\<not> defeated e" and "150 \<le> enemy_x e"
  shows "playerEnemy pixelScan p e = (p, e)"
  using assms
  by (simp add: playerEnemy_def landingOnTop_def checkCharacterEnemyCollision_def
        checkRectCollision_def Let_def)

lemma far_from_all:
  assumes "pos_x p + width p \<le> 150" and "list_all (\<lambda>e. \<not> defeated e \<and> 150 \<le> enemy_x e) es"
  shows "playerEnemies pixelScan p es = (p, es)"
  using assms by (induction es) (simp_all add: far_from_enemies)

lemma players_tick:
  "players (tick px now st) =
     fst (checkCollisions px
       (map (\<lambda>(pid, p). (pid, updatePlayer (TICK_RATE / 1000) (world_map st) p))
          (filter (\<lambda>(pid, p). \<not> timedOut (heartbeats st) now pid) (players st)))
       (updateEnemies (TICK_RATE / 1000) (enemies st)) (collectibles st))"
  by (simp add: tick_def Let_def split_beta)

lemma scenario_tick:
  "players (serverRun pixelScan
      [Connection 0 ''1'', Message 1 ''1'' (Input right_keys 1), Tick 10]) =
     [(''1'', walker\<lparr>pos_x := 103 / 2, pos_y := 2502 / 25, vel_x := 150, vel_y := 8\<rparr>)]"
proof -
  let ?q = "walker\<lparr>pos_x := 103 / 2, pos_y := 2502 / 25, vel_x := 150, vel_y := 8\<rparr>"
  let ?st = "initializeGameState\<lparr>players := [(''1'', walker)], heartbeats := [''1'' \<mapsto> 1]\<rparr>"
  let ?es = "updateEnemies (TICK_RATE / 1000) createEnemies"
  have upd: "updatePlayer (TICK_RATE / 1000) createMap walker = ?q"
    using walker_update [of "TICK_RATE / 1000"] by (simp add: TICK_RATE_def)
  have run: "serverRun pixelScan [Connection 0 ''1'', Message 1 ''1'' (Input right_keys 1), Tick 10]
      = tick pixelScan 10 (serverRun pixelScan [Connection 0 ''1'', Message 1 ''1'' (Input right_keys 1)])"
    by (simp add: serverRun_def)
  have moved: "map (\<lambda>(pid, p). (pid, updatePlayer (TICK_RATE / 1000) (world_map ?st) p))
          (filter (\<lambda>(pid, p). \<not> timedOut (heartbeats ?st) 10 pid) (players ?st)) = [(''1'', ?q)]"
    by (simp add: timedOut_def INACTIVITY_TIMEOUT_def initializeGameState_def upd)
  have "pos_x ?q + width ?q \<le> 150" by (simp add: walker_def new_player_def)
  moreover have "list_all (\<lambda>e. \<not> defeated e \<and> 150 \<le> enemy_x e) ?es"
    by (simp add: updateEnemies_def updateEnemy_def createEnemies_def addEnemy_def TICK_RATE_def
          Let_def)
  ultimately have "playerEnemies pixelScan ?q ?es = (?q, ?es)" by (rule far_from_all)
  then have "fst (checkCollisions pixelScan [(''1'', ?q)] ?es (collectibles ?st)) = [(''1'', ?q)]"
    by simp
  then show ?thesis
    unfolding run scenario_state players_tick moved by (simp add: initializeGameState_def)
qed




subsection \<open>Input sequence numbers\<close>

text \<open>
  Claim C6. The sequence numbers of successive input messages are meant to increase
  strictly. \<^verbatim>\<open>sendInputToServer\<close> takes the next number from the last pending input
  and starts again at 1 when the queue is empty, which it is after a reconciliation
  that acknowledged everything. The client sends its first input with sequence 1; the
  server stores it and ticks; the snapshot of that tick acknowledges 1; the client's
  next input carries sequence 1 again.
\<close>

theorem sequence_restarts_after_acknowledgement:
  "players (serverRun no_scan
      [Connection 0 ''1'', Message 1 ''1'' (Input right_keys 1), Tick 10]) =
     [(''1'', walker\<lparr>pos_x := 103 / 2, pos_y := 2502 / 25, vel_x := 150, vel_y := 8\<rparr>)] \<and>
   outbox (foldl clientStep (client_init start_character no_keys)
      [SocketOpened, KeyChange right_keys 0,
       Snapshot (walker\<lparr>pos_x := 103 / 2, pos_y := 2502 / 25, vel_x := 150, vel_y := 8\<rparr>),
       KeyChange no_keys 500])
   = [Input right_keys 1, Input no_keys 1]"
  by (simp add: scenario_tick)
    (simp add: client_init_def sendInputToServer_def reconcilePlayerPosition_def walker_def)

subsection \<open>A fall through a platform\<close>

lemma createMap_row180: "list_all (probe createMap 180) [120..135]"
  by (simp add: probe_createMap upto.simps)

lemmas eval_defs = updatePlayer_def processPlayerInput_def movePlayerWithCollision_def
  checkHorizontalCollision_def checkVerticalCollision_def stepCount_def marchPos_def
  samplePoint_def playerHit_def gravity_def speed_def jumpSpeed_def minJumpVelocity_def
  MAP_HEIGHT_def TICK_RATE_def Let_def probe_createMap upto.simps new_player_def

text \<open>
  Claim C1. The solver is to halt an entity at a solid tile in its path, whatever the
  displacement. It probes the leading edge at march positions that lie up to four
  units apart, while a cell of the grid is one unit thick, so the probes can step
  over a cell. The falling player \<^const>\<open>faller\<close> stands above the platform of row
  180, which is solid under its whole width. In its first tick its feet go from row
  178 to row 183; the probes fall on rows 178, 179, 181, 182 and 183,
  \<^verbatim>\<open>checkVerticalCollision\<close> reports no contact and the displacement is accepted. Five
  ticks later the player is below the platform as a whole, still falling. With a
  displacement of 31 units a single move carries the player from above the platform
  to below it.
\<close>

theorem falls_through_platform:
  "list_all (probe createMap 180) [120..135] \<and>
   pos_x faller = 120 \<and> width faller = 16 \<and> vel_y faller > 0 \<and>
   pos_y faller + height faller < 180 \<and>
   checkVerticalCollision createMap 120 (3991 / 25) (faller\<lparr>vel_y := 504\<rparr>)
     = (False, faller\<lparr>vel_y := 504\<rparr>) \<and>
   updatePlayer (TICK_RATE / 1000) createMap faller = faller\<lparr>pos_y := 3991 / 25, vel_y := 504\<rparr> \<and>
   ((updatePlayer (TICK_RATE / 1000) createMap) ^^ 6) faller
     = faller\<lparr>pos_y := 4651 / 25, vel_y := 544\<rparr> \<and>
   181 < pos_y (((updatePlayer (TICK_RATE / 1000) createMap) ^^ 6) faller) \<and>
   \<not> onGround (((updatePlayer (TICK_RATE / 1000) createMap) ^^ 6) faller) \<and>
   movePlayerWithCollision createMap (faller\<lparr>pos_y := 151, vel_y := 3100\<rparr>) (TICK_RATE / 1000)
     = faller\<lparr>pos_y := 182, vel_y := 3100\<rparr>"
proof -
  have check: "checkVerticalCollision createMap 120 (3991 / 25) (faller\<lparr>vel_y := 504\<rparr>)
     = (False, faller\<lparr>vel_y := 504\<rparr>)"
    by (simp add: eval_defs faller_def)
  have one: "updatePlayer (TICK_RATE / 1000) createMap faller = faller\<lparr>pos_y := 3991 / 25, vel_y := 504\<rparr>"
    by (simp add: eval_defs faller_def)
  have six: "((updatePlayer (TICK_RATE / 1000) createMap) ^^ 6) faller
     = faller\<lparr>pos_y := 4651 / 25, vel_y := 544\<rparr>"
    by (simp add: eval_defs faller_def numeral_eq_Suc)
  have far: "movePlayerWithCollision createMap (faller\<lparr>pos_y := 151, vel_y := 3100\<rparr>)
      (TICK_RATE / 1000) = faller\<lparr>pos_y := 182, vel_y := 3100\<rparr>"
    by (simp add: eval_defs faller_def)
  show ?thesis
    unfolding check one six far using createMap_row180 by (simp add: faller_def new_player_def)
qed

end
